theory Spec2Isabelle
  imports Main "HOL-Library.Word"
begin

section \<open>Common types\<close>

text \<open>
  A \<open>SHA1Hash\<close> is a 160-bit value, a record version is a \<open>uint64_t\<close>. The macros
  \<open>RAISE\<close> and \<open>RAISEF\<close> throw an exception that carries an error type and a
  message; \<open>what\<close> reads the message back.
\<close>

type_synonym SHA1Hash = "160 word"
type_synonym uint64 = "64 word"

datatype error_type =
  kIllegalStateError | kConcurrentModificationError | kRuntimeError | kIOError

datatype StandardException = Exception (etype: error_type) (what: string)

section \<open>LSMPartitionWriter.cc\<close>

subsection \<open>Records and arenas\<close>

text \<open>
  \<open>RecordRef\<close> as \<open>insertRecords\<close> and \<open>writeArenaToDisk\<close> read it: the fields
  \<open>record_id\<close>, \<open>record_version\<close>, \<open>record\<close> (the encoded payload, here
  \<open>record_data\<close>) and \<open>is_update\<close>.
\<close>

record RecordRef =
  record_id :: SHA1Hash
  record_version :: uint64
  record_data :: string
  is_update :: bool

text \<open>
  Modelled from the spec: the class \<open>RecordArena\<close> (its source file is not among the
  files embedded here). The spec describes it as an unordered mapping from record id to the
  retained record plus a size counter, with the contract
  \<^item> \<open>insert(record)\<close> returns true iff the record replaced nothing or replaced an
    older version, and an insert with a version not above the existing one is a no-op
    that does not bump the counter;
  \<^item> \<open>fetch_record_version(record_id)\<close> is the stored version, 0 if absent;
  \<^item> \<open>size()\<close> is the count of distinct record ids held.
\<close>

record RecordArena =
  arena_records :: "SHA1Hash \<rightharpoonup> RecordRef"
  arena_size :: nat

definition new_RecordArena :: RecordArena where
  "new_RecordArena = \<lparr>arena_records = Map.empty, arena_size = 0\<rparr>"

definition fetchRecordVersion :: "RecordArena \<Rightarrow> SHA1Hash \<Rightarrow> uint64" where
  "fetchRecordVersion a k =
     (case arena_records a k of None \<Rightarrow> 0 | Some r \<Rightarrow> record_version r)"

definition insertRecord :: "RecordArena \<Rightarrow> RecordRef \<Rightarrow> bool \<times> RecordArena" where
  "insertRecord a r =
     (case arena_records a (record_id r) of
        None \<Rightarrow>
          (True, a\<lparr>arena_records := (arena_records a)(record_id r \<mapsto> r),
                   arena_size := Suc (arena_size a)\<rparr>)
      | Some old \<Rightarrow>
          if record_version old < record_version r
          then (True, a\<lparr>arena_records := (arena_records a)(record_id r \<mapsto> r)\<rparr>)
          else (False, a))"

subsection \<open>Snapshots, the writer and the disk\<close>

record LSMTableRef =
  filename :: string

record PartitionState =
  tsdb_namespace :: string
  table_key :: string
  lsm_tables :: "LSMTableRef list"

record PartitionSnapshot =
  state :: PartitionState
  snap_key :: SHA1Hash
  base_path :: string
  head_arena :: RecordArena
  compacting_arena :: "RecordArena option"

text \<open>
  The writer holds the snapshot reference cell \<open>head_\<close> (read by \<open>getSnapshot\<close>,
  replaced by \<open>setSnapshot\<close>) and the flag \<open>frozen_\<close>. Arenas are held by value:
  an insert into the head arena of the current snapshot is an update of the cell.
\<close>

record LSMPartitionWriter =
  head_snap :: PartitionSnapshot
  frozen :: bool

text \<open>
  The part of the file system the writer touches: the committed columnar file at a path
  (the rows shredded into it, each with the extension columns \<open>__lsm_is_update\<close>,
  \<open>__lsm_id\<close> and \<open>__lsm_version\<close>, that is a \<open>RecordRef\<close> per id), the sidecar
  version index at a path (what \<open>RecordVersionMap::write\<close> stored there; a path never
  written reads as the empty index) and the snapshot metadata persisted by
  \<open>writeToDisk\<close>.
\<close>

record Disk =
  cst_files :: "string \<Rightarrow> (SHA1Hash \<rightharpoonup> RecordRef) option"
  idx_files :: "string \<Rightarrow> (SHA1Hash \<rightharpoonup> uint64)"
  snapshot_file :: "PartitionState option"

text \<open>
  Modelled from the spec: \<open>FileUtil::joinPaths\<close> (library code, not among the files
  embedded here) places a file name below a base path.
\<close>

definition joinPaths :: "string \<Rightarrow> string \<Rightarrow> string" where
  "joinPaths p1 p2 = p1 @ ''/'' @ p2"

subsection \<open>insertRecords\<close>

text \<open>
  The local \<open>HashMap<SHA1Hash, uint64_t> rec_versions\<close> is an association list with
  one entry per key. \<open>emplace\<close> adds an entry only for a key that has none;
  \<open>operator[]\<close> reads an entry and creates it with value 0 when the key has none.
\<close>

type_synonym version_map = "(SHA1Hash \<times> uint64) list"

definition emplace :: "version_map \<Rightarrow> SHA1Hash \<Rightarrow> uint64 \<Rightarrow> version_map" where
  "emplace m k v = (case map_of m k of None \<Rightarrow> m @ [(k, v)] | Some _ \<Rightarrow> m)"

definition subscript :: "version_map \<Rightarrow> SHA1Hash \<Rightarrow> uint64 \<times> version_map" where
  "subscript m k = (case map_of m k of None \<Rightarrow> (0, m @ [(k, 0)]) | Some v \<Rightarrow> (v, m))"

text \<open>Lines 51 to 55: the ids whose incoming version exceeds the head arena's.\<close>

fun probe_head :: "RecordArena \<Rightarrow> RecordRef list \<Rightarrow> version_map \<Rightarrow> version_map" where
  "probe_head a [] m = m"
| "probe_head a (r # rs) m =
     probe_head a rs
       (if fetchRecordVersion a (record_id r) < record_version r
        then emplace m (record_id r) 0 else m)"

text \<open>Lines 57 to 64: raise each entry to the compacting arena's version.\<close>

definition probe_compacting :: "RecordArena option \<Rightarrow> version_map \<Rightarrow> version_map" where
  "probe_compacting c m =
     (case c of
        None \<Rightarrow> m
      | Some ca \<Rightarrow>
          map (\<lambda>(k, v). let v' = fetchRecordVersion ca k in if v' > v then (k, v') else (k, v)) m)"

text \<open>
  Modelled from the spec: \<open>RecordVersionMap::lookup\<close> (its source is not among the
  files embedded here): for each key present both in the map and in the index file, the map
  entry becomes the maximum of the two versions.
\<close>

definition RecordVersionMap_lookup ::
    "version_map \<Rightarrow> (SHA1Hash \<rightharpoonup> uint64) \<Rightarrow> version_map" where
  "RecordVersionMap_lookup m f =
     map (\<lambda>(k, v). case f k of None \<Rightarrow> (k, v) | Some w \<Rightarrow> (k, max v w)) m"

text \<open>
  Lines 66 to 73: the sidecar index of every table, the tables taken from \<open>rbegin\<close> to
  \<open>rend\<close> (the caller passes the reversed list).
\<close>

fun probe_tables :: "Disk \<Rightarrow> string \<Rightarrow> LSMTableRef list \<Rightarrow> version_map \<Rightarrow> version_map" where
  "probe_tables d base [] m = m"
| "probe_tables d base (tbl # tbls) m =
     probe_tables d base tbls
       (RecordVersionMap_lookup m (idx_files d (joinPaths base (filename tbl @ ''.idx''))))"

text \<open>Lines 77 to 90: the loop over the records, on a copy \<open>r\<close> of each.\<close>

fun insert_loop ::
    "RecordRef list \<Rightarrow> version_map \<Rightarrow> RecordArena \<Rightarrow> SHA1Hash set
       \<Rightarrow> RecordArena \<times> SHA1Hash set" where
  "insert_loop [] m a ids = (a, ids)"
| "insert_loop (r # rs) m a ids =
     (case subscript m (record_id r) of
        (headv, m') \<Rightarrow>
          let r' = (if headv > 0 then r\<lparr>is_update := True\<rparr> else r) in
          if record_version r' \<le> headv then insert_loop rs m' a ids
          else
            (case insertRecord a r' of
               (True, a') \<Rightarrow> insert_loop rs m' a' (insert (record_id r') ids)
             | (False, a') \<Rightarrow> insert_loop rs m' a' ids))"

text \<open>
  \<open>insertRecords\<close> returns the outcome (the exception raised, or the set of inserted
  ids) together with the writer as the call leaves it.
\<close>

definition insertRecords ::
    "Disk \<Rightarrow> LSMPartitionWriter \<Rightarrow> RecordRef list
       \<Rightarrow> (StandardException + SHA1Hash set) \<times> LSMPartitionWriter" where
  "insertRecords d w recs =
     (if frozen w then (Inl (Exception kIllegalStateError ''partition is frozen''), w)
      else
        let snap = head_snap w;
            m0 = probe_head (head_arena snap) recs [];
            m1 = probe_compacting (compacting_arena snap) m0;
            m2 = probe_tables d (base_path snap) (rev (lsm_tables (state snap))) m1
        in if m2 \<noteq> []
           then (case insert_loop recs m2 (head_arena snap) {} of
                   (a, inserted_ids) \<Rightarrow>
                     (Inr inserted_ids, w\<lparr>head_snap := snap\<lparr>head_arena := a\<rparr>\<rparr>))
           else (Inr {}, w))"

definition needsCommit :: "LSMPartitionWriter \<Rightarrow> bool" where
  "needsCommit w = (arena_size (head_arena (head_snap w)) > 0)"

definition needsCompaction :: "LSMPartitionWriter \<Rightarrow> bool" where
  "needsCompaction w = (if needsCommit w then True else False)"


subsection \<open>commit\<close>

text \<open>
  Phase A, lines 114 to 124, under the write mutex: flip the arenas if records are
  pending and no arena is being flushed. The result is the arena to flush (the local
  \<open>arena\<close>) and the writer with the published snapshot.
\<close>

definition commit_flip :: "LSMPartitionWriter \<Rightarrow> RecordArena option \<times> LSMPartitionWriter" where
  "commit_flip w =
     (let snap = head_snap w in
      if compacting_arena snap = None \<and> arena_size (head_arena snap) > 0
      then
        (let snap1 = snap\<lparr>compacting_arena := Some (head_arena snap)\<rparr>;
             snap2 = snap1\<lparr>head_arena := new_RecordArena\<rparr>
         in (compacting_arena snap2, w\<lparr>head_snap := snap2\<rparr>))
      else (compacting_arena snap, w))"

text \<open>
  Where a flush can raise. The columnar writer, the message decoder and
  \<open>RecordVersionMap::write\<close> are collaborators whose code is not embedded here; the
  exception one of them raises is given from outside, with the place where it is raised:
  before \<open>cstable->commit()\<close> has returned (lines 218 to 238: creating the file,
  decoding and shredding a record, committing), or in \<open>RecordVersionMap::write\<close> (line
  239), when the columnar file is committed already.
\<close>

datatype flush_fault =
    RaisedBeforeCommit StandardException
  | RaisedByIndexWrite StandardException

text \<open>
  \<open>writeArenaToDisk\<close>, lines 205 to 242. A write that succeeds stores the arena's
  records in \<open>filename.cst\<close> and then the version of each record in \<open>filename.idx\<close>.
  A write that raises before the commit leaves no committed columnar file; a write that
  raises in \<open>RecordVersionMap::write\<close> leaves \<open>filename.cst\<close> committed and without a
  sidecar index.
\<close>

definition writeArenaToDisk ::
    "flush_fault option \<Rightarrow> RecordArena \<Rightarrow> string \<Rightarrow> Disk
       \<Rightarrow> (StandardException + unit) \<times> Disk" where
  "writeArenaToDisk fault arena fname d =
     (case fault of
        Some (RaisedBeforeCommit e) \<Rightarrow> (Inl e, d)
      | Some (RaisedByIndexWrite e) \<Rightarrow>
          (Inl e,
           d\<lparr>cst_files := (cst_files d)(fname @ ''.cst'' := Some (arena_records arena))\<rparr>)
      | None \<Rightarrow>
          (Inr (),
           d\<lparr>cst_files := (cst_files d)(fname @ ''.cst'' := Some (arena_records arena)),
             idx_files := (idx_files d)
               (fname @ ''.idx'' := (\<lambda>k. map_option record_version (arena_records arena k)))\<rparr>))"

text \<open>
  Phase C, lines 145 to 151, under the write mutex: the snapshot current at that moment
  loses its compacting arena and gains one table reference with the flushed file's name.
\<close>

definition commit_install ::
    "string \<Rightarrow> Disk \<Rightarrow> LSMPartitionWriter \<Rightarrow> Disk \<times> LSMPartitionWriter" where
  "commit_install fname d w =
     (let snap = (head_snap w)\<lparr>compacting_arena := None\<rparr>;
          tblref = \<lparr>filename = fname\<rparr>;
          snap' = snap\<lparr>state := (state snap)\<lparr>lsm_tables := lsm_tables (state snap) @ [tblref]\<rparr>\<rparr>
      in (d\<lparr>snapshot_file := Some (state snap')\<rparr>, w\<lparr>head_snap := snap'\<rparr>))"

text \<open>
  \<open>commit\<close>, lines 109 to 153, run without another thread in between. \<open>fname\<close> is the
  value of \<open>Random::singleton()->hex64()\<close>. The result is the outcome with the disk and
  the writer as the call leaves them, also when the flush raises.
\<close>

definition commit ::
    "flush_fault option \<Rightarrow> string \<Rightarrow> Disk \<Rightarrow> LSMPartitionWriter
       \<Rightarrow> (StandardException + unit) \<times> Disk \<times> LSMPartitionWriter" where
  "commit fault fname d w =
     (case commit_flip w of
        (arena, w1) \<Rightarrow>
          (case arena of
             None \<Rightarrow> (Inr (), d, w1)
           | Some a \<Rightarrow>
               if arena_size a > 0
               then
                 (let snap = head_snap w1;
                      filepath = joinPaths (base_path snap) fname
                  in case writeArenaToDisk fault a filepath d of
                       (Inl e, d1) \<Rightarrow> (Inl e, d1, w1)
                     | (Inr u, d1) \<Rightarrow>
                         (case commit_install fname d1 w1 of (d2, w2) \<Rightarrow> (Inr (), d2, w2)))
               else (Inr (), d, w1)))"

subsection \<open>compact\<close>

text \<open>
  Lines 180 to 193: the loop over the current table list with its counter \<open>i\<close>; it
  raises at the first entry of the captured prefix whose file name differs and collects
  the entries beyond the prefix at the end of \<open>new_tables\<close>.
\<close>

definition concurrent_modification :: StandardException where
  "concurrent_modification =
     Exception kConcurrentModificationError
       (''can'' @ [CHR 0x27] @ ''t commit compaction, aborting'')"

fun check_tables ::
    "LSMTableRef list \<Rightarrow> LSMTableRef list \<Rightarrow> nat \<Rightarrow> LSMTableRef list
       \<Rightarrow> StandardException + LSMTableRef list" where
  "check_tables old_tables [] i new_tables = Inr new_tables"
| "check_tables old_tables (tbl # tbls) i new_tables =
     (if i < length old_tables
      then (if filename (old_tables ! i) \<noteq> filename tbl then Inl concurrent_modification
            else check_tables old_tables tbls (Suc i) new_tables)
      else check_tables old_tables tbls (Suc i) (new_tables @ [tbl]))"

text \<open>
  Lines 172 to 202, under the write mutex: the install step, from the captured
  \<open>old_tables\<close>, the compacted \<open>new_tables\<close> and the snapshot current at that moment.
\<close>

definition compact_install ::
    "LSMTableRef list \<Rightarrow> LSMTableRef list \<Rightarrow> Disk \<Rightarrow> LSMPartitionWriter
       \<Rightarrow> (StandardException + unit) \<times> Disk \<times> LSMPartitionWriter" where
  "compact_install old_tables new_tables d w =
     (let snap = head_snap w in
      if length (lsm_tables (state snap)) < length old_tables
      then (Inl concurrent_modification, d, w)
      else
        (case check_tables old_tables (lsm_tables (state snap)) 0 new_tables of
           Inl e \<Rightarrow> (Inl e, d, w)
         | Inr new_tables' \<Rightarrow>
             let snap' = snap\<lparr>state := (state snap)\<lparr>lsm_tables := new_tables'\<rparr>\<rparr>
             in (Inr (), d\<lparr>snapshot_file := Some (state snap')\<rparr>, w\<lparr>head_snap := snap'\<rparr>)))"

text \<open>
  \<open>compact\<close>, lines 155 to 203, run without another thread in between; the compaction
  strategy is commented out in the source, so \<open>new_tables\<close> starts as \<open>old_tables\<close>.
\<close>

definition compact ::
    "flush_fault option \<Rightarrow> string \<Rightarrow> Disk \<Rightarrow> LSMPartitionWriter
       \<Rightarrow> (StandardException + unit) \<times> Disk \<times> LSMPartitionWriter" where
  "compact fault fname d w =
     (case commit fault fname d w of
        (Inl e, d1, w1) \<Rightarrow> (Inl e, d1, w1)
      | (Inr u, d1, w1) \<Rightarrow>
          let old_tables = lsm_tables (state (head_snap w1));
              new_tables = old_tables
          in compact_install old_tables new_tables d1 w1)"

subsection \<open>Versions known to a snapshot\<close>

text \<open>
  The version of a record id in the compacting arena (0 without one), in the sidecar index
  of a table (0 when the index has no entry), the highest of these over the compacting
  arena and all tables of a snapshot, and the highest over the head arena as well.
\<close>

definition compacting_version :: "RecordArena option \<Rightarrow> SHA1Hash \<Rightarrow> uint64" where
  "compacting_version c k = (case c of None \<Rightarrow> 0 | Some ca \<Rightarrow> fetchRecordVersion ca k)"

definition index_version :: "Disk \<Rightarrow> string \<Rightarrow> LSMTableRef \<Rightarrow> SHA1Hash \<Rightarrow> uint64" where
  "index_version d base tbl k =
     (case idx_files d (joinPaths base (filename tbl @ ''.idx'')) k of
        None \<Rightarrow> 0 | Some v \<Rightarrow> v)"

definition flushed_version :: "Disk \<Rightarrow> PartitionSnapshot \<Rightarrow> SHA1Hash \<Rightarrow> uint64" where
  "flushed_version d snap k =
     Max (set (compacting_version (compacting_arena snap) k #
               map (\<lambda>tbl. index_version d (base_path snap) tbl k) (lsm_tables (state snap))))"

definition known_version :: "Disk \<Rightarrow> PartitionSnapshot \<Rightarrow> SHA1Hash \<Rightarrow> uint64" where
  "known_version d snap k =
     max (fetchRecordVersion (head_arena snap) k) (flushed_version d snap k)"

text \<open>The value \<open>operator[]\<close> reads from a version map.\<close>

definition vget :: "version_map \<Rightarrow> SHA1Hash \<Rightarrow> uint64" where
  "vget m k = (case map_of m k of None \<Rightarrow> 0 | Some v \<Rightarrow> v)"

text \<open>
  One record against an arena and the flushed versions \<open>C\<close>: what the loop of
  \<open>insertRecords\<close> is shown to do with it.
\<close>

definition retain ::
    "(SHA1Hash \<Rightarrow> uint64) \<Rightarrow> RecordRef \<Rightarrow> RecordArena \<times> SHA1Hash set
       \<Rightarrow> RecordArena \<times> SHA1Hash set" where
  "retain C r s =
     (case s of (a, ids) \<Rightarrow>
        if max (fetchRecordVersion a (record_id r)) (C (record_id r)) < record_version r
        then (snd (insertRecord a (r\<lparr>is_update := is_update r \<or> 0 < C (record_id r)\<rparr>)),
              insert (record_id r) ids)
        else (a, ids))"

text \<open>
  The loop invariant of \<open>insertRecords\<close>: an entry of the version map is the flushed
  version of its id, or it reads 0 and no remaining record of that id is newer than the
  head arena.
\<close>

definition covered ::
    "version_map \<Rightarrow> (SHA1Hash \<Rightarrow> uint64) \<Rightarrow> RecordRef list \<Rightarrow> RecordArena \<Rightarrow> bool" where
  "covered m C rs a \<longleftrightarrow>
     (\<forall>k. vget m k = C k \<or>
          (vget m k = 0 \<and>
           (\<forall>r\<in>set rs. record_id r = k \<longrightarrow> record_version r \<le> fetchRecordVersion a k)))"

text \<open>A disk without files and a partition without records and tables.\<close>

definition empty_disk :: Disk where
  "empty_disk =
     \<lparr>cst_files = (\<lambda>p. None), idx_files = (\<lambda>p. Map.empty), snapshot_file = None\<rparr>"

definition empty_partition :: LSMPartitionWriter where
  "empty_partition =
     \<lparr>head_snap =
        \<lparr>state = \<lparr>tsdb_namespace = ''ns'', table_key = ''tbl'', lsm_tables = []\<rparr>,
         snap_key = 0, base_path = ''/data'',
         head_arena = new_RecordArena, compacting_arena = None\<rparr>,
      frozen = False\<rparr>"

text \<open>
  The empty partition after one insert; the disk and that partition after a commit whose
  flush raised in the index write (the columnar file \<open>f0.cst\<close> is an orphan and the
  flipped arena stays in the compacting slot); a partition with two tables.
\<close>

definition one_record_partition :: LSMPartitionWriter where
  "one_record_partition =
     snd (insertRecords empty_disk empty_partition
       [\<lparr>record_id = 1, record_version = 5, record_data = ''a'', is_update = False\<rparr>])"

definition failed_flush_disk :: Disk where
  "failed_flush_disk =
     fst (snd (commit (Some (RaisedByIndexWrite (Exception kIOError ''disk full''))) ''f0''
                 empty_disk one_record_partition))"

definition failed_flush_partition :: LSMPartitionWriter where
  "failed_flush_partition =
     snd (snd (commit (Some (RaisedByIndexWrite (Exception kIOError ''disk full''))) ''f0''
                 empty_disk one_record_partition))"

definition two_table_partition :: LSMPartitionWriter where
  "two_table_partition =
     empty_partition\<lparr>head_snap := (head_snap empty_partition)\<lparr>state :=
       (state (head_snap empty_partition))
         \<lparr>lsm_tables := [\<lparr>filename = ''a''\<rparr>, \<lparr>filename = ''b''\<rparr>]\<rparr>\<rparr>\<rparr>"

section \<open>ReduceTask.cc\<close>

subsection \<open>build\<close>

text \<open>
  The task tree that \<open>build\<close> walks. \<open>ReduceTask\<close> carries the members \<open>sources_\<close>
  and \<open>num_shards_\<close> of the class; \<open>SourceTask n\<close> stands for a task of another class
  with \<open>n\<close> shards of its own and no sources (see \<open>build_source\<close> below).
\<close>

datatype MapReduceTask =
    ReduceTask (sources: "MapReduceTask list") (num_shards: nat)
  | SourceTask nat

record MapReduceTaskShard =
  task :: MapReduceTask
  dependencies :: "nat list"

text \<open>
  Lines 41 to 48: the loop that allocates the shards of a task, counted down here; each
  round records \<open>shards->size()\<close> and then appends the new shard.
\<close>

fun alloc_shards ::
    "MapReduceTask \<Rightarrow> nat list \<Rightarrow> nat \<Rightarrow> nat list \<Rightarrow> MapReduceTaskShard list
       \<Rightarrow> nat list \<times> MapReduceTaskShard list" where
  "alloc_shards t in_indexes 0 out_indexes shards = (out_indexes, shards)"
| "alloc_shards t in_indexes (Suc n) out_indexes shards =
     alloc_shards t in_indexes n (out_indexes @ [length shards])
       (shards @ [\<lparr>task = t, dependencies = in_indexes\<rparr>])"

text \<open>
  Modelled from the spec: the \<open>build\<close> of the task classes other than \<open>ReduceTask\<close>
  (their sources are not among the files embedded here). The spec gives the contract "a
  task appends its shards to the list and returns the indices it produced" and the
  scenario of sources that each produce a number of shards: such a task appends its
  \<open>n\<close> shards, which depend on no other shard.
\<close>

definition build_source ::
    "nat \<Rightarrow> MapReduceTaskShard list \<Rightarrow> nat list \<times> MapReduceTaskShard list" where
  "build_source n shards = alloc_shards (SourceTask n) [] n [] shards"

text \<open>
  \<open>ReduceTask::build\<close>, lines 32 to 51, with the loop over \<open>sources_\<close> (lines 36 to
  39) as \<open>build_sources\<close>, which threads \<open>in_indexes\<close> and the shard list; the virtual
  call \<open>src->build(shards)\<close> is the recursive call of \<open>build\<close>.
\<close>

fun build :: "MapReduceTask \<Rightarrow> MapReduceTaskShard list \<Rightarrow> nat list \<times> MapReduceTaskShard list"
  and build_sources ::
    "MapReduceTask list \<Rightarrow> nat list \<Rightarrow> MapReduceTaskShard list
       \<Rightarrow> nat list \<times> MapReduceTaskShard list" where
  "build (ReduceTask srcs n) shards =
     (case build_sources srcs [] shards of
        (in_indexes, shards1) \<Rightarrow> alloc_shards (ReduceTask srcs n) in_indexes n [] shards1)"
| "build (SourceTask n) shards = build_source n shards"
| "build_sources [] in_indexes shards = (in_indexes, shards)"
| "build_sources (src # srcs) in_indexes shards =
     (case build src shards of
        (src_indexes, shards1) \<Rightarrow> build_sources srcs (in_indexes @ src_indexes) shards1)"

text \<open>
  The index lists that the sources return when they are built one after the other on the
  same shard list.
\<close>

fun build_in_order :: "MapReduceTask list \<Rightarrow> MapReduceTaskShard list \<Rightarrow> nat list list" where
  "build_in_order [] shards = []"
| "build_in_order (src # srcs) shards =
     fst (build src shards) # build_in_order srcs (snd (build src shards))"

fun shards_after :: "MapReduceTask list \<Rightarrow> MapReduceTaskShard list \<Rightarrow> MapReduceTaskShard list" where
  "shards_after [] shards = shards"
| "shards_after (src # srcs) shards = shards_after srcs (snd (build src shards))"

text \<open>Invariant I6 of a shard list.\<close>

definition topologically_ordered :: "MapReduceTaskShard list \<Rightarrow> bool" where
  "topologically_ordered shards \<longleftrightarrow>
     (\<forall>i < length shards. \<forall>dep \<in> set (dependencies (shards ! i)). dep < i)"

subsection \<open>execute and executeRemote\<close>

record ReplicaRef =
  addr :: string

record HTTPRequest =
  url :: string
  headers :: "(string \<times> string) list"

record HTTPResponse =
  statusCode :: int
  body :: string

record MapReduceShardResult =
  host :: ReplicaRef
  result_id :: SHA1Hash

text \<open>
  What \<open>execute\<close> and \<open>executeRemote\<close> read of the task and of its collaborators, whose
  code is not embedded here: the members \<open>job_spec_->program_source\<close> and
  \<open>method_name_\<close>, the token \<open>auth_->encodeAuthToken(session_)\<close>, the replication
  scheme \<open>repl_->replicasFor\<close>, \<open>URI::urlEncode\<close>, \<open>SHA1Hash::fromHexString\<close>, and the
  HTTP client: the response to a request, or the exception the transport raises.
\<close>

record ReduceEnv =
  program_source :: string
  method_name :: string
  api_token :: string
  replicasFor :: "SHA1Hash \<Rightarrow> ReplicaRef list"
  urlEncode :: "string \<Rightarrow> string"
  fromHexString :: "string \<Rightarrow> SHA1Hash"
  executeRequest :: "HTTPRequest \<Rightarrow> StandardException + HTTPResponse"

text \<open>
  What a call leaves behind besides its result: the requests sent and the errors logged,
  in order.
\<close>

datatype event = Sent HTTPRequest | Logged StandardException

text \<open>Lines 101 to 120: the request for a host.\<close>

definition mkRequest :: "ReduceEnv \<Rightarrow> string list \<Rightarrow> ReplicaRef \<Rightarrow> HTTPRequest" where
  "mkRequest env input_tables h =
     (let url0 = ''http://'' @ addr h @ ''/api/v1/mapreduce/tasks/reduce?'' @
                 ''program_source='' @ urlEncode env (program_source env) @
                 ''&method_name='' @ urlEncode env (method_name env);
          url1 = fold (\<lambda>input_table u. u @ ''&input_table='' @ urlEncode env input_table)
                   input_tables url0;
          auth_headers = [(''Authorization'', ''Token '' @ api_token env)]
      in \<lparr>url = url1, headers = auth_headers\<rparr>)"

text \<open>\<open>executeRemote\<close>, lines 89 to 139.\<close>

definition executeRemote ::
    "ReduceEnv \<Rightarrow> string list \<Rightarrow> ReplicaRef
       \<Rightarrow> (StandardException + MapReduceShardResult option) \<times> event list" where
  "executeRemote env input_tables h =
     (let req = mkRequest env input_tables h in
      case executeRequest env req of
        Inl e \<Rightarrow> (Inl e, [Sent req])
      | Inr res \<Rightarrow>
          if statusCode res = 204 then (Inr None, [Sent req])
          else if statusCode res \<noteq> 201
          then (Inl (Exception kRuntimeError (''received non-201 response: '' @ body res)),
                [Sent req])
          else (Inr (Some \<lparr>host = h, result_id = fromHexString env (body res)\<rparr>), [Sent req]))"

text \<open>
  Modelled from the spec: \<open>StringUtil::join\<close> (library code, not among the files embedded
  here) joins the messages with the separator between them.
\<close>

fun join :: "string list \<Rightarrow> string \<Rightarrow> string" where
  "join [] sep = []"
| "join [x] sep = x"
| "join (x # y # ys) sep = x @ sep @ join (y # ys) sep"

text \<open>
  Lines 68 to 86: the loop over the hosts with the vector \<open>errors\<close>, and the exception
  raised after the loop.
\<close>

fun try_hosts ::
    "ReduceEnv \<Rightarrow> string list \<Rightarrow> ReplicaRef list \<Rightarrow> string list
       \<Rightarrow> (StandardException + MapReduceShardResult option) \<times> event list" where
  "try_hosts env input_tables [] errors =
     (Inl (Exception kRuntimeError (''MapTableTask::execute failed: '' @ join errors '', '')), [])"
| "try_hosts env input_tables (h # hosts) errors =
     (case executeRemote env input_tables h of
        (Inr res, evs) \<Rightarrow> (Inr res, evs)
      | (Inl e, evs) \<Rightarrow>
          (case try_hosts env input_tables hosts (errors @ [what e]) of
             (res, evs') \<Rightarrow> (res, evs @ [Logged e] @ evs')))"

text \<open>
  \<open>execute\<close>, lines 53 to 87. \<open>job\<close> is \<open>job->getResultURL\<close>, \<open>output_id\<close> the value of
  \<open>Random::singleton()->sha1()\<close>.
\<close>

definition execute ::
    "ReduceEnv \<Rightarrow> MapReduceTaskShard \<Rightarrow> (nat \<Rightarrow> string option) \<Rightarrow> SHA1Hash
       \<Rightarrow> (StandardException + MapReduceShardResult option) \<times> event list" where
  "execute env shard job output_id =
     (let input_tables = List.map_filter job (dependencies shard);
          hosts = replicasFor env output_id
      in try_hosts env input_tables hosts [])"


text \<open>
  What a host that raised leaves in the trace, and the message \<open>e.what()\<close> it adds to
  \<open>errors\<close>.
\<close>

definition attempt_events :: "ReduceEnv \<Rightarrow> string list \<Rightarrow> ReplicaRef \<Rightarrow> event list" where
  "attempt_events env input_tables h =
     [Sent (mkRequest env input_tables h),
      Logged (projl (fst (executeRemote env input_tables h)))]"

definition attempt_message :: "ReduceEnv \<Rightarrow> string list \<Rightarrow> ReplicaRef \<Rightarrow> string" where
  "attempt_message env input_tables h = what (projl (fst (executeRemote env input_tables h)))"

text \<open>
  Modelled from the spec: \<open>SHA1Hash::fromHexString\<close> (library code, not among the files
  embedded here), for the example below: the body of a 201 response is a hex-encoded
  result id.
\<close>

definition hex_digit :: "char \<Rightarrow> nat" where
  "hex_digit c =
     (let n = of_char c :: nat in
      if 48 \<le> n \<and> n \<le> 57 then n - 48
      else if 97 \<le> n \<and> n \<le> 102 then n - 87
      else if 65 \<le> n \<and> n \<le> 70 then n - 55
      else 0)"

definition hex_decode :: "string \<Rightarrow> SHA1Hash" where
  "hex_decode s = foldl (\<lambda>acc c. acc * 16 + of_nat (hex_digit c)) 0 s"

text \<open>
  Collaborators for a run of \<open>execute\<close>: three replicas of which the first refuses the
  connection, the second answers 201 with a hex body and the third answers 204; any other
  host answers 500.
\<close>

definition example_env :: ReduceEnv where
  "example_env =
     \<lparr>program_source = ''src'', method_name = ''reduce'', api_token = ''tok'',
      replicasFor = (\<lambda>output_id. [\<lparr>addr = ''a''\<rparr>, \<lparr>addr = ''b''\<rparr>, \<lparr>addr = ''c''\<rparr>]),
      urlEncode = (\<lambda>s. s),
      fromHexString = hex_decode,
      executeRequest = (\<lambda>req.
        if url req ! 7 = CHR ''a'' then Inl (Exception kIOError ''connection refused'')
        else if url req ! 7 = CHR ''b'' then Inr \<lparr>statusCode = 201, body = ''aabb''\<rparr>
        else if url req ! 7 = CHR ''c'' then Inr \<lparr>statusCode = 204, body = []\<rparr>
        else Inr \<lparr>statusCode = 500, body = ''boom''\<rparr>)\<rparr>"

definition example_shard :: MapReduceTaskShard where
  "example_shard = \<lparr>task = ReduceTask [SourceTask 2] 1, dependencies = [0, 1]\<rparr>"

definition example_job :: "nat \<Rightarrow> string option" where
  "example_job i = (if i = 0 then Some ''t0'' else None)"

section \<open>Properties of insertRecords\<close>

subsection \<open>The version map after the three probes\<close>

lemma map_of_emplace:
  "map_of (emplace m k v) k' =
     (case map_of m k' of None \<Rightarrow> (if k' = k then Some v else None) | Some x \<Rightarrow> Some x)"
  by (auto simp: emplace_def map_add_def split: option.splits)

lemma map_of_probe_head:
  "map_of (probe_head a rs m) k =
     (case map_of m k of
        Some v \<Rightarrow> Some v
      | None \<Rightarrow> if \<exists>r\<in>set rs. record_id r = k \<and> fetchRecordVersion a k < record_version r
                then Some 0 else None)"
  by (induction rs arbitrary: m) (auto simp: map_of_emplace split: option.splits)

lemma map_of_map_entries:
  "map_of (map (\<lambda>(k, v). (k, f k v)) m) k = map_option (f k) (map_of m k)"
  by (induction m) auto

lemma map_of_probe_compacting:
  "map_of (probe_compacting c m) k = map_option (\<lambda>v. max v (compacting_version c k)) (map_of m k)"
proof (cases c)
  case None
  then show ?thesis
    by (cases "map_of m k") (simp_all add: probe_compacting_def compacting_version_def max_def)
next
  case (Some ca)
  have "(\<lambda>(k, v). let v' = fetchRecordVersion ca k in if v' > v then (k, v') else (k, v))
        = (\<lambda>(k, v). (k, max v (fetchRecordVersion ca k)))"
    by (auto simp: fun_eq_iff Let_def max_def)
  with Some show ?thesis
    by (simp add: probe_compacting_def compacting_version_def map_of_map_entries)
qed

lemma map_of_RecordVersionMap_lookup:
  "map_of (RecordVersionMap_lookup m f) k =
     map_option (\<lambda>v. max v (case f k of None \<Rightarrow> 0 | Some w \<Rightarrow> w)) (map_of m k)"
proof -
  have "(\<lambda>(k, v). case f k of None \<Rightarrow> (k, v) | Some w \<Rightarrow> (k, max v w))
        = (\<lambda>(k, v). (k, max v (case f k of None \<Rightarrow> 0 | Some w \<Rightarrow> w)))"
    by (auto simp: fun_eq_iff max_def split: option.splits)
  then show ?thesis
    by (simp add: RecordVersionMap_lookup_def map_of_map_entries)
qed

lemma map_of_probe_tables:
  "map_of (probe_tables d base tbls m) k =
     map_option (\<lambda>v. fold max (map (\<lambda>tbl. index_version d base tbl k) tbls) v) (map_of m k)"
proof (induction tbls arbitrary: m)
  case Nil
  then show ?case by (simp add: option.map_ident)
next
  case (Cons tbl tbls)
  then show ?case
    by (cases "map_of m k")
       (simp_all add: map_of_RecordVersionMap_lookup index_version_def max.commute)
qed

lemma vget_subscript:
  "fst (subscript m k) = vget m k" "vget (snd (subscript m k)) k' = vget m k'"
  by (auto simp: subscript_def vget_def map_add_def split: option.splits)

lemma fold_max_Max:
  fixes c :: "'a::linorder"
  shows "fold max xs c = Max (set (c # xs))"
  by (simp only: Max.set_eq_fold)

lemma vget_probes:
  "vget (probe_tables d (base_path snap) (rev (lsm_tables (state snap)))
           (probe_compacting (compacting_arena snap) (probe_head a rs []))) k =
     (if \<exists>r\<in>set rs. record_id r = k \<and> fetchRecordVersion a k < record_version r
      then flushed_version d snap k else 0)"
proof -
  have "fold max (map (\<lambda>tbl. index_version d (base_path snap) tbl k) (rev (lsm_tables (state snap))))
           (compacting_version (compacting_arena snap) k) = flushed_version d snap k"
    by (simp add: fold_max_Max flushed_version_def)
  then show ?thesis
    by (auto simp: vget_def map_of_probe_tables map_of_probe_compacting map_of_probe_head)
qed

lemma probes_empty_iff:
  "probe_tables d base tbls (probe_compacting c (probe_head a rs [])) = [] \<longleftrightarrow>
     (\<forall>r\<in>set rs. record_version r \<le> fetchRecordVersion a (record_id r))"
proof -
  have "probe_tables d base tbls (probe_compacting c (probe_head a rs [])) = [] \<longleftrightarrow>
        (\<forall>k. map_of (probe_tables d base tbls (probe_compacting c (probe_head a rs []))) k = None)"
    by (metis map_of_eq_empty_iff)
  also have "\<dots> \<longleftrightarrow> (\<forall>r\<in>set rs. record_version r \<le> fetchRecordVersion a (record_id r))"
    by (auto simp: map_of_probe_tables map_of_probe_compacting map_of_probe_head not_less)
  finally show ?thesis .
qed

lemma fst_insertRecord:
  "fst (insertRecord a r) \<longleftrightarrow>
     arena_records a (record_id r) = None \<or> fetchRecordVersion a (record_id r) < record_version r"
  by (auto simp: insertRecord_def fetchRecordVersion_def split: option.splits)

lemma snd_insertRecord_rejected:
  "\<not> fst (insertRecord a r) \<Longrightarrow> snd (insertRecord a r) = a"
  by (auto simp: insertRecord_def split: option.splits)

lemma fetch_insertRecord:
  "fetchRecordVersion (snd (insertRecord a r)) k =
     (if k = record_id r \<and> fst (insertRecord a r) then record_version r
      else fetchRecordVersion a k)"
  by (auto simp: insertRecord_def fetchRecordVersion_def split: option.splits)

lemma fetch_insertRecord_mono:
  "fetchRecordVersion a k \<le> fetchRecordVersion (snd (insertRecord a r)) k"
  by (auto simp: insertRecord_def fetchRecordVersion_def split: option.splits)

lemma insert_loop_Cons:
  "insert_loop (r # rs) m a ids =
     (let headv = vget m (record_id r);
          m' = snd (subscript m (record_id r));
          r' = (if headv > 0 then r\<lparr>is_update := True\<rparr> else r)
      in if record_version r \<le> headv then insert_loop rs m' a ids
         else if fst (insertRecord a r')
              then insert_loop rs m' (snd (insertRecord a r')) (insert (record_id r) ids)
              else insert_loop rs m' a ids)"
proof -
  obtain headv m' where sub: "subscript m (record_id r) = (headv, m')"
    by (cases "subscript m (record_id r)")
  then have hv: "vget m (record_id r) = headv"
    using vget_subscript(1) [of m "record_id r"] by simp
  let ?r' = "if headv > 0 then r\<lparr>is_update := True\<rparr> else r"
  obtain b a' where ins: "insertRecord a ?r' = (b, a')" by (cases "insertRecord a ?r'")
  then have "\<not> b \<Longrightarrow> a' = a"
    using snd_insertRecord_rejected [of a ?r'] by simp
  then show ?thesis
    using ins by (cases b) (simp_all add: sub hv Let_def)
qed

lemma covered_step:
  assumes "covered m C (r # rs) a"
  shows "covered (snd (subscript m k)) C rs (snd (insertRecord a r'))"
    and "covered (snd (subscript m k)) C rs a"
  using assms fetch_insertRecord_mono [of a _ r']
  unfolding covered_def vget_subscript
  by (auto intro: order_trans)

lemma insert_loop_step:
  assumes "covered m C (r # rs) a"
  shows "insert_loop (r # rs) m a ids =
           (case retain C r (a, ids) of (a', ids') \<Rightarrow> insert_loop rs (snd (subscript m (record_id r))) a' ids')"
proof -
  let ?k = "record_id r"
  from assms consider
      (known) "vget m ?k = C ?k"
    | (stale) "vget m ?k = 0" "record_version r \<le> fetchRecordVersion a ?k"
    unfolding covered_def by auto
  then show ?thesis
  proof cases
    case known
    show ?thesis
    proof (cases "0 < C ?k")
      case True
      then show ?thesis
        using known
        by (auto simp: insert_loop_Cons Let_def retain_def fst_insertRecord not_less fetchRecordVersion_def
                 simp del: insert_loop.simps split: option.splits)
    next
      case False
      then show ?thesis
        using known
        by (auto simp: insert_loop_Cons Let_def retain_def fst_insertRecord not_less fetchRecordVersion_def
                 simp del: insert_loop.simps split: option.splits)
    qed
  next
    case stale
    then show ?thesis
      by (auto simp: insert_loop_Cons Let_def retain_def fst_insertRecord not_less fetchRecordVersion_def
               simp del: insert_loop.simps split: option.splits)
  qed
qed

lemma insert_loop_retain:
  "covered m C rs a \<Longrightarrow> insert_loop rs m a ids = fold (retain C) rs (a, ids)"
proof (induction rs arbitrary: m a ids)
  case Nil
  then show ?case by simp
next
  case (Cons r rs)
  have step: "insert_loop (r # rs) m a ids =
           (case retain C r (a, ids) of (a', ids') \<Rightarrow> insert_loop rs (snd (subscript m (record_id r))) a' ids')"
    by (rule insert_loop_step [OF Cons.prems])
  obtain a' ids' where r: "retain C r (a, ids) = (a', ids')" by (cases "retain C r (a, ids)")
  then have "a' = a \<or> a' = snd (insertRecord a (r\<lparr>is_update := is_update r \<or> 0 < C (record_id r)\<rparr>))"
    by (auto simp: retain_def split: if_splits)
  then have "covered (snd (subscript m (record_id r))) C rs a'"
    using covered_step [OF Cons.prems] by auto
  then show ?case
    using step r Cons.IH by simp
qed

lemma retain_noop:
  "record_version r \<le> max (fetchRecordVersion a (record_id r)) (C (record_id r))
     \<Longrightarrow> retain C r (a, ids) = (a, ids)"
  by (auto simp: retain_def max_def split: if_splits)

lemma fold_retain_noops:
  "\<forall>r\<in>set rs. record_version r \<le> max (fetchRecordVersion a (record_id r)) (C (record_id r))
     \<Longrightarrow> fold (retain C) rs (a, ids) = (a, ids)"
  by (induction rs) (simp_all add: retain_noop)

lemma covered_probes:
  "covered (probe_tables d (base_path snap) (rev (lsm_tables (state snap)))
              (probe_compacting (compacting_arena snap) (probe_head a rs [])))
           (flushed_version d snap) rs a"
  unfolding covered_def vget_probes by (auto simp: not_less)

lemma insertRecords_fold:
  assumes "\<not> frozen w"
  shows "insertRecords d w rs =
           (case fold (retain (flushed_version d (head_snap w))) rs (head_arena (head_snap w), {}) of
              (a, ids) \<Rightarrow> (Inr ids, w\<lparr>head_snap := (head_snap w)\<lparr>head_arena := a\<rparr>\<rparr>))"
proof -
  let ?snap = "head_snap w"
  let ?a = "head_arena ?snap"
  let ?m = "probe_tables d (base_path ?snap) (rev (lsm_tables (state ?snap)))
              (probe_compacting (compacting_arena ?snap) (probe_head ?a rs []))"
  show ?thesis
  proof (cases "?m = []")
    case True
    then have "\<forall>r\<in>set rs. record_version r \<le> fetchRecordVersion ?a (record_id r)"
      by (simp only: probes_empty_iff)
    then have "fold (retain (flushed_version d ?snap)) rs (?a, {}) = (?a, {})"
      by (intro fold_retain_noops) (auto simp: max_def)
    with True assms show ?thesis
      by (simp add: insertRecords_def Let_def)
  next
    case False
    have "insert_loop rs ?m ?a {} = fold (retain (flushed_version d ?snap)) rs (?a, {})"
      by (rule insert_loop_retain [OF covered_probes])
    with False assms show ?thesis
      by (simp add: insertRecords_def Let_def)
  qed
qed

lemma flushed_version_head_arena [simp]:
  "flushed_version d (snap\<lparr>head_arena := a\<rparr>) = flushed_version d snap"
  by (simp add: flushed_version_def fun_eq_iff)

lemma known_version_head_arena [simp]:
  "known_version d (snap\<lparr>head_arena := a\<rparr>) k = max (fetchRecordVersion a k) (flushed_version d snap k)"
  by (simp add: known_version_def)

lemma fetch_retain_other:
  "record_id r \<noteq> k \<Longrightarrow> arena_records (fst (retain C r (a, ids))) k = arena_records a k"
  by (simp add: retain_def insertRecord_def split: option.splits)

lemma fold_retain_ids:
  "snd (fold (retain C) rs (a, ids)) =
     ids \<union> {record_id r | r. r \<in> set rs \<and>
                max (fetchRecordVersion a (record_id r)) (C (record_id r)) < record_version r}"
proof (induction rs arbitrary: a ids)
  case Nil
  then show ?case by simp
next
  case (Cons r rs)
  let ?k = "record_id r"
  show ?case
  proof (cases "max (fetchRecordVersion a ?k) (C ?k) < record_version r")
    case False
    then have "retain C r (a, ids) = (a, ids)" by (auto simp: retain_def)
    with False show ?thesis by (auto simp: Cons.IH)
  next
    case True
    let ?a' = "snd (insertRecord a (r\<lparr>is_update := is_update r \<or> 0 < C ?k\<rparr>))"
    from True have step: "retain C r (a, ids) = (?a', insert ?k ids)" by (simp add: retain_def)
    have fetch: "fetchRecordVersion ?a' k' = (if k' = ?k then record_version r else fetchRecordVersion a k')" for k'
      using True by (simp add: fetch_insertRecord fst_insertRecord)
    show ?thesis
      using True unfolding fold_simps step Cons.IH
      by (auto simp: fetch)
  qed
qed

lemma snd_insertRecord_accepted:
  "fetchRecordVersion a (record_id r) < record_version r \<Longrightarrow>
     snd (insertRecord a r) =
       a\<lparr>arena_records := (arena_records a)(record_id r \<mapsto> r),
         arena_size := (if arena_records a (record_id r) = None then Suc (arena_size a)
                        else arena_size a)\<rparr>"
  by (auto simp: insertRecord_def fetchRecordVersion_def split: option.splits)

lemma known_version_empty:
  "head_arena snap = new_RecordArena \<Longrightarrow> compacting_arena snap = None \<Longrightarrow>
     lsm_tables (state snap) = [] \<Longrightarrow> known_version d snap k = 0"
  by (simp add: known_version_def flushed_version_def compacting_version_def
        fetchRecordVersion_def new_RecordArena_def)

lemma fold_retain_arena_unchanged:
  "\<forall>x\<in>set rs. record_id x = k \<longrightarrow>
       record_version x \<le> max (fetchRecordVersion a k) (C k)
     \<Longrightarrow> arena_records (fst (fold (retain C) rs (a, ids))) k = arena_records a k"
proof (induction rs arbitrary: a ids)
  case Nil
  then show ?case by simp
next
  case (Cons r rs)
  obtain a' ids' where step: "retain C r (a, ids) = (a', ids')" by (cases "retain C r (a, ids)")
  have same: "arena_records a' k = arena_records a k"
  proof (cases "record_id r = k")
    case True
    with Cons.prems have "retain C r (a, ids) = (a, ids)"
      by (intro retain_noop) simp
    with step show ?thesis by simp
  next
    case False
    then show ?thesis
      using fetch_retain_other [of r k C a ids] step by simp
  qed
  then have "fetchRecordVersion a' k = fetchRecordVersion a k"
    by (simp add: fetchRecordVersion_def)
  with Cons.prems have "\<forall>x\<in>set rs. record_id x = k \<longrightarrow>
       record_version x \<le> max (fetchRecordVersion a' k) (C k)"
    by simp
  from Cons.IH [OF this] show ?case
    by (simp add: step same)
qed

lemmas lsm_eval =
  insertRecords_def empty_partition_def empty_disk_def new_RecordArena_def
  probe_compacting_def emplace_def subscript_def insertRecord_def fetchRecordVersion_def
  known_version_def flushed_version_def compacting_version_def Let_def

subsection \<open>What insertRecords retains\<close>

text \<open>
  C1, as amended. For a call of \<open>insertRecords\<close> on a partition that is not frozen:
  \<^item> the empty batch returns the empty set and leaves the writer as it was;
  \<^item> a record \<open>r\<close> that follows the records \<open>recs\<close> in the batch is put into the head
    arena, and its id added to the returned set, exactly when its version is strictly
    greater than the known version of its id in the state the earlier records left, the
    known version being the highest over the head arena, the compacting arena and the
    sidecar indexes; no other entry of the arena changes;
  \<^item> the record is stored with \<open>is_update\<close> true when its incoming flag was true or a
    non-zero version of its id is in the compacting arena or in a sidecar index (a prior
    version held by the head arena alone does not set the flag);
  \<^item> the returned set holds exactly the ids of which some record of the batch exceeds the
    version known when the call starts;
  \<^item> the three records of the spec's first scenario, inserted into a partition without
    records and tables, return the ids 1 and 2.
\<close>

theorem insertRecords_known_version:
  assumes "\<not> frozen w"
  shows
    "insertRecords d w [] = (Inr {}, w)
     \<and> insertRecords d w (recs @ [r]) =
       (case insertRecords d w recs of
          (Inr ids, w1) \<Rightarrow>
            if known_version d (head_snap w1) (record_id r) < record_version r
            then
              let a1 = head_arena (head_snap w1);
                  r' = r\<lparr>is_update := is_update r \<or>
                          0 < flushed_version d (head_snap w1) (record_id r)\<rparr>
              in (Inr (insert (record_id r) ids),
                  w1\<lparr>head_snap := (head_snap w1)\<lparr>head_arena :=
                    a1\<lparr>arena_records := (arena_records a1)(record_id r \<mapsto> r'),
                       arena_size := (if arena_records a1 (record_id r) = None
                                      then Suc (arena_size a1) else arena_size a1)\<rparr>\<rparr>\<rparr>)
            else (Inr ids, w1)
        | (Inl e, w1) \<Rightarrow> (Inl e, w1))
     \<and> fst (insertRecords d w recs) =
         Inr {record_id x | x. x \<in> set recs \<and>
                known_version d (head_snap w) (record_id x) < record_version x}
     \<and> (head_arena (head_snap w) = new_RecordArena \<and> compacting_arena (head_snap w) = None \<and>
        lsm_tables (state (head_snap w)) = [] \<longrightarrow>
        fst (insertRecords d w
               [\<lparr>record_id = 1, record_version = 5, record_data = p1, is_update = u1\<rparr>,
                \<lparr>record_id = 1, record_version = 3, record_data = p2, is_update = u2\<rparr>,
                \<lparr>record_id = 2, record_version = 1, record_data = p3, is_update = u3\<rparr>])
          = Inr {1, 2})"
proof (intro conjI impI)
  show "insertRecords d w [] = (Inr {}, w)"
    by (simp add: insertRecords_fold [OF assms])
next
  obtain a ids where f:
    "fold (retain (flushed_version d (head_snap w))) recs (head_arena (head_snap w), {}) = (a, ids)"
    by (cases "fold (retain (flushed_version d (head_snap w))) recs (head_arena (head_snap w), {})")
  show "insertRecords d w (recs @ [r]) =
       (case insertRecords d w recs of
          (Inr ids, w1) \<Rightarrow>
            if known_version d (head_snap w1) (record_id r) < record_version r
            then
              let a1 = head_arena (head_snap w1);
                  r' = r\<lparr>is_update := is_update r \<or>
                          0 < flushed_version d (head_snap w1) (record_id r)\<rparr>
              in (Inr (insert (record_id r) ids),
                  w1\<lparr>head_snap := (head_snap w1)\<lparr>head_arena :=
                    a1\<lparr>arena_records := (arena_records a1)(record_id r \<mapsto> r'),
                       arena_size := (if arena_records a1 (record_id r) = None
                                      then Suc (arena_size a1) else arena_size a1)\<rparr>\<rparr>\<rparr>)
            else (Inr ids, w1)
        | (Inl e, w1) \<Rightarrow> (Inl e, w1))"
    by (simp add: insertRecords_fold [OF assms] f retain_def snd_insertRecord_accepted Let_def)
next
  have ids: "fst (insertRecords d w xs) =
         Inr {record_id x | x. x \<in> set xs \<and>
                known_version d (head_snap w) (record_id x) < record_version x}" for xs
    by (simp add: insertRecords_fold [OF assms] case_prod_unfold fold_retain_ids known_version_def)
  show "fst (insertRecords d w recs) =
         Inr {record_id x | x. x \<in> set recs \<and>
                known_version d (head_snap w) (record_id x) < record_version x}"
    by (rule ids)
  assume "head_arena (head_snap w) = new_RecordArena \<and> compacting_arena (head_snap w) = None \<and>
        lsm_tables (state (head_snap w)) = []"
  then have kv: "known_version d (head_snap w) k = 0" for k
    by (simp add: known_version_empty)
  have img: "{record_id x | x. x \<in> set xs \<and> Q x} = record_id ` set (filter Q xs)"
    for xs :: "RecordRef list" and Q
    by auto
  show "fst (insertRecords d w
               [\<lparr>record_id = 1, record_version = 5, record_data = p1, is_update = u1\<rparr>,
                \<lparr>record_id = 1, record_version = 3, record_data = p2, is_update = u2\<rparr>,
                \<lparr>record_id = 2, record_version = 1, record_data = p3, is_update = u3\<rparr>])
          = Inr {1, 2}"
    unfolding ids img by (simp add: kv)
qed


text \<open>
  A witness of C1: the first scenario of the spec on the empty partition.
\<close>

theorem insertRecords_known_version_witness:
  "\<not> frozen empty_partition \<and>
   fst (insertRecords empty_disk empty_partition
          [\<lparr>record_id = 1, record_version = 5, record_data = ''a'', is_update = False\<rparr>,
           \<lparr>record_id = 1, record_version = 3, record_data = ''b'', is_update = False\<rparr>,
           \<lparr>record_id = 2, record_version = 1, record_data = ''c'', is_update = False\<rparr>])
     = Inr {1, 2}"
  using insertRecords_known_version [of empty_partition empty_disk "[]"
          "\<lparr>record_id = 1, record_version = 5, record_data = ''a'', is_update = False\<rparr>"
          "''a''" False "''b''" False "''c''" False]
  by (simp add: empty_partition_def)

text \<open>
  C1 as stated fails for the flag: a partition whose head arena alone holds version 5 of
  id 1 (the state one insert leaves) takes version 6 of that id, a prior non-zero version
  exists, and the record is stored with \<open>is_update\<close> false.
\<close>

theorem head_only_version_counterexample:
  "known_version empty_disk
     (head_snap (snd (insertRecords empty_disk empty_partition
        [\<lparr>record_id = 1, record_version = 5, record_data = ''a'', is_update = False\<rparr>]))) 1 = 5
   \<and> fst (insertRecords empty_disk
        (snd (insertRecords empty_disk empty_partition
           [\<lparr>record_id = 1, record_version = 5, record_data = ''a'', is_update = False\<rparr>]))
        [\<lparr>record_id = 1, record_version = 6, record_data = ''b'', is_update = False\<rparr>]) = Inr {1}
   \<and> arena_records (head_arena (head_snap (snd (insertRecords empty_disk
        (snd (insertRecords empty_disk empty_partition
           [\<lparr>record_id = 1, record_version = 5, record_data = ''a'', is_update = False\<rparr>]))
        [\<lparr>record_id = 1, record_version = 6, record_data = ''b'', is_update = False\<rparr>])))) 1
      = Some \<lparr>record_id = 1, record_version = 6, record_data = ''b'', is_update = False\<rparr>"
  by (simp add: lsm_eval)

text \<open>
  C2, as amended. For a call of \<open>insertRecords\<close> on a partition that is not frozen:
  \<^item> a record whose version is not above the version known for its id when the loop
    reaches it is a no-op: the outcome of the call (the returned set and the writer, with
    the head arena and its size counter) is that of the batch without this record;
  \<^item> a batch of which every record is at or below the version known at the start of the
    call returns the empty set and leaves the writer as it was;
  \<^item> an id of which every record of the batch is at or below the version known at the
    start of the call is not in the returned set and keeps its entry of the head arena.
  The id of a stale record is in the returned set when another record of the batch with
  the same id is accepted.
\<close>

theorem insertRecords_stale_noop:
  assumes "\<not> frozen w"
  shows
    "(record_version r \<le> known_version d (head_snap (snd (insertRecords d w xs))) (record_id r)
        \<longrightarrow> insertRecords d w (xs @ r # ys) = insertRecords d w (xs @ ys))
     \<and> ((\<forall>x\<in>set recs. record_version x \<le> known_version d (head_snap w) (record_id x))
        \<longrightarrow> insertRecords d w recs = (Inr {}, w))
     \<and> ((\<forall>x\<in>set recs. record_id x = k \<longrightarrow> record_version x \<le> known_version d (head_snap w) k)
        \<longrightarrow> (case fst (insertRecords d w recs) of Inr ids \<Rightarrow> k \<notin> ids | Inl e \<Rightarrow> False) \<and>
            arena_records (head_arena (head_snap (snd (insertRecords d w recs)))) k =
              arena_records (head_arena (head_snap w)) k)"
proof (intro conjI impI)
  let ?C = "flushed_version d (head_snap w)"
  let ?a = "head_arena (head_snap w)"
  obtain a1 ids1 where f: "fold (retain ?C) xs (?a, {}) = (a1, ids1)"
    by (cases "fold (retain ?C) xs (?a, {})")
  assume "record_version r \<le> known_version d (head_snap (snd (insertRecords d w xs))) (record_id r)"
  then have "record_version r \<le> max (fetchRecordVersion a1 (record_id r)) (?C (record_id r))"
    by (simp add: insertRecords_fold [OF assms] f)
  then have "retain ?C r (a1, ids1) = (a1, ids1)"
    by (rule retain_noop)
  then show "insertRecords d w (xs @ r # ys) = insertRecords d w (xs @ ys)"
    by (simp add: insertRecords_fold [OF assms] f)
next
  assume "\<forall>x\<in>set recs. record_version x \<le> known_version d (head_snap w) (record_id x)"
  then have "fold (retain (flushed_version d (head_snap w))) recs (head_arena (head_snap w), {})
               = (head_arena (head_snap w), {})"
    by (intro fold_retain_noops) (simp add: known_version_def)
  then show "insertRecords d w recs = (Inr {}, w)"
    by (simp add: insertRecords_fold [OF assms])
next
  assume stale: "\<forall>x\<in>set recs. record_id x = k \<longrightarrow> record_version x \<le> known_version d (head_snap w) k"
  have "fst (insertRecords d w recs) =
          Inr (snd (fold (retain (flushed_version d (head_snap w))) recs (head_arena (head_snap w), {})))"
    by (simp add: insertRecords_fold [OF assms] case_prod_unfold)
  with stale show "case fst (insertRecords d w recs) of Inr ids \<Rightarrow> k \<notin> ids | Inl e \<Rightarrow> False"
    by (auto simp: fold_retain_ids known_version_def not_less [symmetric])
next
  assume stale: "\<forall>x\<in>set recs. record_id x = k \<longrightarrow> record_version x \<le> known_version d (head_snap w) k"
  have "head_arena (head_snap (snd (insertRecords d w recs))) =
          fst (fold (retain (flushed_version d (head_snap w))) recs (head_arena (head_snap w), {}))"
    by (simp add: insertRecords_fold [OF assms] case_prod_unfold)
  moreover have "arena_records (fst (fold (retain (flushed_version d (head_snap w))) recs
                    (head_arena (head_snap w), {}))) k = arena_records (head_arena (head_snap w)) k"
    using stale by (intro fold_retain_arena_unchanged) (simp add: known_version_def)
  ultimately show "arena_records (head_arena (head_snap (snd (insertRecords d w recs)))) k =
              arena_records (head_arena (head_snap w)) k"
    by simp
qed

theorem insertRecords_stale_noop_witness:
  "\<not> frozen empty_partition \<and>
   record_version \<lparr>record_id = 1, record_version = 5, record_data = ''b'', is_update = False\<rparr>
     \<le> known_version empty_disk
          (head_snap (snd (insertRecords empty_disk empty_partition
             [\<lparr>record_id = 1, record_version = 5, record_data = ''a'', is_update = False\<rparr>]))) 1 \<and>
   insertRecords empty_disk empty_partition
     [\<lparr>record_id = 1, record_version = 5, record_data = ''a'', is_update = False\<rparr>,
      \<lparr>record_id = 1, record_version = 5, record_data = ''b'', is_update = False\<rparr>]
   = insertRecords empty_disk empty_partition
     [\<lparr>record_id = 1, record_version = 5, record_data = ''a'', is_update = False\<rparr>] \<and>
   insertRecords empty_disk empty_partition
     [\<lparr>record_id = 2, record_version = 0, record_data = ''c'', is_update = False\<rparr>]
   = (Inr {}, empty_partition)"
  using insertRecords_stale_noop [of empty_partition
          "\<lparr>record_id = 1, record_version = 5, record_data = ''b'', is_update = False\<rparr>"
          empty_disk
          "[\<lparr>record_id = 1, record_version = 5, record_data = ''a'', is_update = False\<rparr>]"
          "[]"
          "[\<lparr>record_id = 2, record_version = 0, record_data = ''c'', is_update = False\<rparr>]" 2]
  by (simp add: lsm_eval)

text \<open>
  C2 as stated fails for the returned set, on the first scenario of the spec: version 3
  of id 1 follows version 5 of the same id in the batch; it is not above the known
  version 5, and its id is returned.
\<close>

theorem stale_record_id_returned_counterexample:
  "record_version \<lparr>record_id = 1, record_version = 3, record_data = ''b'', is_update = False\<rparr>
     \<le> known_version empty_disk
          (head_snap (snd (insertRecords empty_disk empty_partition
             [\<lparr>record_id = 1, record_version = 5, record_data = ''a'', is_update = False\<rparr>]))) 1
   \<and> fst (insertRecords empty_disk empty_partition
        [\<lparr>record_id = 1, record_version = 5, record_data = ''a'', is_update = False\<rparr>,
         \<lparr>record_id = 1, record_version = 3, record_data = ''b'', is_update = False\<rparr>,
         \<lparr>record_id = 2, record_version = 1, record_data = ''c'', is_update = False\<rparr>])
      = Inr {1, 2}"
  by (simp add: lsm_eval insert_commute)

section \<open>Properties of commit and compact\<close>

lemma commit_flip_pending:
  assumes "compacting_arena (head_snap w) = None" and "arena_size (head_arena (head_snap w)) > 0"
  shows "commit_flip w =
           (Some (head_arena (head_snap w)),
            w\<lparr>head_snap := (head_snap w)\<lparr>compacting_arena := Some (head_arena (head_snap w)),
                                          head_arena := new_RecordArena\<rparr>\<rparr>)"
  using assms by (simp add: commit_flip_def Let_def)

lemma commit_flip_leftover:
  assumes "compacting_arena (head_snap w) = Some ca"
  shows "commit_flip w = (Some ca, w)"
  using assms by (simp add: commit_flip_def Let_def)

lemma commit_flushing:
  assumes "commit_flip w = (Some a, w1)" and "arena_size a > 0"
  shows "commit fault fname d w =
           (case fault of
              Some (RaisedBeforeCommit e) \<Rightarrow> (Inl e, d, w1)
            | Some (RaisedByIndexWrite e) \<Rightarrow>
                (Inl e,
                 d\<lparr>cst_files := (cst_files d)
                      (joinPaths (base_path (head_snap w1)) fname @ ''.cst'' := Some (arena_records a))\<rparr>,
                 w1)
            | None \<Rightarrow>
                (Inr (),
                 d\<lparr>cst_files := (cst_files d)
                      (joinPaths (base_path (head_snap w1)) fname @ ''.cst'' := Some (arena_records a)),
                   idx_files := (idx_files d)
                      (joinPaths (base_path (head_snap w1)) fname @ ''.idx'' :=
                         (\<lambda>k. map_option record_version (arena_records a k))),
                   snapshot_file := Some ((state (head_snap w1))
                      \<lparr>lsm_tables := lsm_tables (state (head_snap w1)) @ [\<lparr>filename = fname\<rparr>]\<rparr>)\<rparr>,
                 w1\<lparr>head_snap := (head_snap w1)
                      \<lparr>compacting_arena := None,
                       state := (state (head_snap w1))
                         \<lparr>lsm_tables := lsm_tables (state (head_snap w1)) @ [\<lparr>filename = fname\<rparr>]\<rparr>\<rparr>\<rparr>))"
  using assms
  by (simp add: commit_def writeArenaToDisk_def commit_install_def Let_def
        split: option.splits flush_fault.splits)

lemma one_record_partition_eq:
  "one_record_partition =
     \<lparr>head_snap =
        \<lparr>state = \<lparr>tsdb_namespace = ''ns'', table_key = ''tbl'', lsm_tables = []\<rparr>,
         snap_key = 0, base_path = ''/data'',
         head_arena = \<lparr>arena_records =
            [1 \<mapsto> \<lparr>record_id = 1, record_version = 5, record_data = ''a'', is_update = False\<rparr>],
            arena_size = 1\<rparr>,
         compacting_arena = None\<rparr>,
      frozen = False\<rparr>"
  by (simp add: one_record_partition_def lsm_eval)

lemma failed_flush_partition_eq:
  "failed_flush_partition =
     \<lparr>head_snap =
        \<lparr>state = \<lparr>tsdb_namespace = ''ns'', table_key = ''tbl'', lsm_tables = []\<rparr>,
         snap_key = 0, base_path = ''/data'',
         head_arena = new_RecordArena,
         compacting_arena = Some \<lparr>arena_records =
            [1 \<mapsto> \<lparr>record_id = 1, record_version = 5, record_data = ''a'', is_update = False\<rparr>],
            arena_size = 1\<rparr>\<rparr>,
      frozen = False\<rparr>"
  by (simp add: failed_flush_partition_def one_record_partition_eq commit_def commit_flip_def
        writeArenaToDisk_def Let_def)

lemma failed_flush_disk_eq:
  "failed_flush_disk =
     empty_disk\<lparr>cst_files := (cst_files empty_disk)
       (''/data/f0.cst'' :=
          Some [1 \<mapsto> \<lparr>record_id = 1, record_version = 5, record_data = ''a'',
                         is_update = False\<rparr>])\<rparr>"
  by (simp add: failed_flush_disk_def one_record_partition_eq commit_def commit_flip_def
        writeArenaToDisk_def joinPaths_def Let_def)

lemma check_tables_result:
  "check_tables old cur i new =
     (if \<exists>j<length cur. i + j < length old \<and> filename (old ! (i + j)) \<noteq> filename (cur ! j)
      then Inl concurrent_modification
      else Inr (new @ drop (length old - i) cur))"
proof (induction cur arbitrary: i new)
  case Nil
  then show ?case by simp
next
  case (Cons tbl tbls)
  have shift: "(\<exists>j<length (tbl # tbls). i + j < length old \<and> filename (old ! (i + j)) \<noteq> filename ((tbl # tbls) ! j))
      \<longleftrightarrow> (i < length old \<and> filename (old ! i) \<noteq> filename tbl) \<or>
          (\<exists>j<length tbls. Suc i + j < length old \<and> filename (old ! (Suc i + j)) \<noteq> filename (tbls ! j))"
    (is "?L \<longleftrightarrow> ?R")
  proof
    assume ?L
    then obtain j where j: "j < length (tbl # tbls)" "i + j < length old"
      "filename (old ! (i + j)) \<noteq> filename ((tbl # tbls) ! j)" by blast
    show ?R
    proof (cases j)
      case 0
      with j show ?thesis by simp
    next
      case (Suc j')
      with j show ?thesis by auto
    qed
  next
    assume ?R
    then show ?L
    proof
      assume "i < length old \<and> filename (old ! i) \<noteq> filename tbl"
      then show ?L by (intro exI [of _ 0]) simp
    next
      assume "\<exists>j<length tbls. Suc i + j < length old \<and> filename (old ! (Suc i + j)) \<noteq> filename (tbls ! j)"
      then obtain j where "j < length tbls" "Suc i + j < length old"
        "filename (old ! (Suc i + j)) \<noteq> filename (tbls ! j)" by blast
      then show ?L by (intro exI [of _ "Suc j"]) simp
    qed
  qed
  show ?case
  proof (cases "i < length old")
    case True
    then have "drop (length old - i) (tbl # tbls) = drop (length old - Suc i) tbls"
      by (simp add: drop_Cons' )
    with True show ?thesis
      unfolding shift by (auto simp: Cons.IH)
  next
    case False
    then show ?thesis
      unfolding shift by (simp add: Cons.IH)
  qed
qed

text \<open>
  C3. For a call of \<open>commit\<close> on a snapshot without compacting arena and with a
  non-empty head arena: the flip publishes a snapshot whose compacting arena is the former
  head arena and whose head arena is a fresh empty arena; the call completes when the
  flush does not raise; and when the call completes, the published snapshot has no
  compacting arena, its head arena is the fresh one, and its table list is the previous
  list with one table reference appended at the end that carries the flushed file's name,
  the file whose columnar table holds the records of the former head arena and whose
  sidecar index holds their versions. The install
  step does the same on whatever snapshot \<open>w1\<close> is current when it runs (inserts of
  other threads between the phases change the head arena only): it clears the compacting
  arena, keeps the head arena and appends the one table reference.
\<close>

theorem commit_flip_and_install:
  assumes "compacting_arena (head_snap w) = None"
    and "arena_size (head_arena (head_snap w)) > 0"
  shows
    "commit_flip w =
       (Some (head_arena (head_snap w)),
        w\<lparr>head_snap := (head_snap w)\<lparr>compacting_arena := Some (head_arena (head_snap w)),
                                      head_arena := new_RecordArena\<rparr>\<rparr>)
     \<and> fst (commit None fname d w) = Inr ()
     \<and> (fst (commit fault fname d w) = Inr () \<longrightarrow>
          compacting_arena (head_snap (snd (snd (commit fault fname d w)))) = None \<and>
          head_arena (head_snap (snd (snd (commit fault fname d w)))) = new_RecordArena \<and>
          lsm_tables (state (head_snap (snd (snd (commit fault fname d w))))) =
            lsm_tables (state (head_snap w)) @ [\<lparr>filename = fname\<rparr>] \<and>
          cst_files (fst (snd (commit fault fname d w)))
              (joinPaths (base_path (head_snap w)) fname @ ''.cst'') =
            Some (arena_records (head_arena (head_snap w))) \<and>
          idx_files (fst (snd (commit fault fname d w)))
              (joinPaths (base_path (head_snap w)) fname @ ''.idx'') =
            (\<lambda>k. map_option record_version (arena_records (head_arena (head_snap w)) k)))
     \<and> (compacting_arena (head_snap (snd (commit_install fname d1 w1))) = None \<and>
        head_arena (head_snap (snd (commit_install fname d1 w1))) = head_arena (head_snap w1) \<and>
        lsm_tables (state (head_snap (snd (commit_install fname d1 w1)))) =
          lsm_tables (state (head_snap w1)) @ [\<lparr>filename = fname\<rparr>])"
  using commit_flushing [OF commit_flip_pending [OF assms] assms(2)]
  by (simp add: commit_flip_pending [OF assms] commit_install_def Let_def
        split: option.splits flush_fault.splits)

theorem commit_flip_and_install_witness:
  "compacting_arena (head_snap one_record_partition) = None \<and>
   arena_size (head_arena (head_snap one_record_partition)) > 0 \<and>
   fst (commit None ''f1'' empty_disk one_record_partition) = Inr () \<and>
   compacting_arena (head_snap (snd (snd (commit None ''f1'' empty_disk one_record_partition)))) = None \<and>
   lsm_tables (state (head_snap (snd (snd (commit None ''f1'' empty_disk one_record_partition))))) =
     [\<lparr>filename = ''f1''\<rparr>]"
  using commit_flip_and_install [of one_record_partition "''f1''" empty_disk None]
  by (simp add: one_record_partition_eq)

text \<open>
  C9. For a call of \<open>commit\<close> on a snapshot that holds a non-empty compacting arena,
  whatever the head arena holds: the flip is skipped and leaves the writer as it is; the
  call completes when the flush does not raise; and when the call completes, the head
  arena is still in place, the compacting arena is cleared, one table reference with the
  new file's name is appended, and the leftover compacting arena is flushed to that new
  on-disk table: the columnar file \<open>.cst\<close> of that name holds its records and the
  sidecar index \<open>.idx\<close> holds their versions.
\<close>

theorem commit_leftover_compacting:
  assumes "compacting_arena (head_snap w) = Some ca" and "arena_size ca > 0"
  shows
    "commit_flip w = (Some ca, w)
     \<and> fst (commit None fname d w) = Inr ()
     \<and> (fst (commit fault fname d w) = Inr () \<longrightarrow>
          head_arena (head_snap (snd (snd (commit fault fname d w)))) = head_arena (head_snap w) \<and>
          compacting_arena (head_snap (snd (snd (commit fault fname d w)))) = None \<and>
          lsm_tables (state (head_snap (snd (snd (commit fault fname d w))))) =
            lsm_tables (state (head_snap w)) @ [\<lparr>filename = fname\<rparr>] \<and>
          cst_files (fst (snd (commit fault fname d w)))
              (joinPaths (base_path (head_snap w)) fname @ ''.cst'') =
            Some (arena_records ca) \<and>
          idx_files (fst (snd (commit fault fname d w)))
              (joinPaths (base_path (head_snap w)) fname @ ''.idx'') =
            (\<lambda>k. map_option record_version (arena_records ca k)))"
  using commit_flushing [OF commit_flip_leftover [OF assms(1)] assms(2)]
  by (simp add: commit_flip_leftover [OF assms(1)] split: option.splits flush_fault.splits)

theorem commit_leftover_compacting_witness:
  "compacting_arena (head_snap failed_flush_partition) =
     Some (head_arena (head_snap one_record_partition)) \<and>
   arena_size (head_arena (head_snap one_record_partition)) > 0 \<and>
   arena_size (head_arena (head_snap failed_flush_partition)) = 0 \<and>
   fst (commit None ''f1'' failed_flush_disk failed_flush_partition) = Inr () \<and>
   compacting_arena
     (head_snap (snd (snd (commit None ''f1'' failed_flush_disk failed_flush_partition)))) = None \<and>
   lsm_tables (state
     (head_snap (snd (snd (commit None ''f1'' failed_flush_disk failed_flush_partition))))) =
     [\<lparr>filename = ''f1''\<rparr>] \<and>
   cst_files (fst (snd (commit None ''f1'' failed_flush_disk failed_flush_partition)))
       ''/data/f1.cst'' =
     Some [1 \<mapsto> \<lparr>record_id = 1, record_version = 5, record_data = ''a'', is_update = False\<rparr>]"
  using commit_leftover_compacting [of failed_flush_partition
          "head_arena (head_snap one_record_partition)" "''f1''" failed_flush_disk None]
  by (simp add: failed_flush_partition_eq one_record_partition_eq new_RecordArena_def
        joinPaths_def)

text \<open>
  C4. The install step of \<open>compact\<close> raises the concurrent-modification error if and
  only if the current table list is shorter than the captured \<open>old_tables\<close> or some
  entry among its first \<open>old_tables.size()\<close> positions has a file name that differs
  from the captured one; it raises no other error, and when it raises, the disk and the
  writer (so the snapshot) are left as they were; when it does not raise, the new table
  list is \<open>new_tables\<close> followed by every entry of the current list beyond
  \<open>old_tables.size()\<close>.
\<close>

theorem compact_install_concurrent_modification:
  "(fst (compact_install old_tables new_tables d w) = Inl concurrent_modification \<longleftrightarrow>
      length (lsm_tables (state (head_snap w))) < length old_tables \<or>
      (\<exists>i<length old_tables. i < length (lsm_tables (state (head_snap w))) \<and>
          filename (old_tables ! i) \<noteq> filename (lsm_tables (state (head_snap w)) ! i)))
   \<and> (\<forall>e. fst (compact_install old_tables new_tables d w) = Inl e \<longrightarrow>
          e = concurrent_modification \<and> snd (compact_install old_tables new_tables d w) = (d, w))
   \<and> (fst (compact_install old_tables new_tables d w) = Inr () \<longrightarrow>
        lsm_tables (state (head_snap (snd (snd (compact_install old_tables new_tables d w))))) =
          new_tables @ drop (length old_tables) (lsm_tables (state (head_snap w))))"
  by (auto simp: compact_install_def check_tables_result Let_def)

theorem compact_install_concurrent_modification_witness:
  "fst (compact_install [\<lparr>filename = ''a''\<rparr>] [\<lparr>filename = ''c''\<rparr>] empty_disk two_table_partition) = Inr () \<and>
   lsm_tables (state (head_snap (snd (snd
     (compact_install [\<lparr>filename = ''a''\<rparr>] [\<lparr>filename = ''c''\<rparr>] empty_disk two_table_partition))))) =
     [\<lparr>filename = ''c''\<rparr>, \<lparr>filename = ''b''\<rparr>] \<and>
   compact_install [\<lparr>filename = ''x''\<rparr>] [\<lparr>filename = ''c''\<rparr>] empty_disk two_table_partition =
     (Inl concurrent_modification, empty_disk, two_table_partition)"
proof -
  have ok: "fst (compact_install [\<lparr>filename = ''a''\<rparr>] [\<lparr>filename = ''c''\<rparr>] empty_disk
              two_table_partition) = Inr ()"
    by (simp add: compact_install_def two_table_partition_def empty_partition_def Let_def)
  have bad: "fst (compact_install [\<lparr>filename = ''x''\<rparr>] [\<lparr>filename = ''c''\<rparr>] empty_disk
              two_table_partition) = Inl concurrent_modification"
    by (simp add: compact_install_def two_table_partition_def empty_partition_def Let_def)
  show ?thesis
    using ok bad
      compact_install_concurrent_modification
        [of "[\<lparr>filename = ''a''\<rparr>]" "[\<lparr>filename = ''c''\<rparr>]" empty_disk two_table_partition]
      compact_install_concurrent_modification
        [of "[\<lparr>filename = ''x''\<rparr>]" "[\<lparr>filename = ''c''\<rparr>]" empty_disk two_table_partition]
    by (simp add: two_table_partition_def empty_partition_def prod_eq_iff)
qed


section \<open>Properties of build\<close>

lemma alloc_shards_eq:
  "alloc_shards t deps n out shards =
     (out @ [length shards ..< length shards + n],
      shards @ replicate n \<lparr>task = t, dependencies = deps\<rparr>)"
proof (induction n arbitrary: out shards)
  case 0
  then show ?case by simp
next
  case (Suc n)
  have "[length shards ..< length shards + Suc n] =
          length shards # [Suc (length shards) ..< Suc (length shards) + n]"
    by (simp add: upt_conv_Cons)
  then show ?case
    by (simp add: Suc.IH replicate_app_Cons_same)
qed

lemma build_sources_eq:
  "build_sources srcs acc shards =
     (acc @ concat (build_in_order srcs shards), shards_after srcs shards)"
  by (induction srcs arbitrary: acc shards) (simp_all add: case_prod_unfold)

lemma topologically_ordered_append:
  assumes "topologically_ordered shards"
    and "\<forall>j<length ext. \<forall>dep\<in>set (dependencies (ext ! j)). dep < length shards + j"
  shows "topologically_ordered (shards @ ext)"
  unfolding topologically_ordered_def
proof (intro allI impI ballI)
  fix i dep
  assume i: "i < length (shards @ ext)" and dep: "dep \<in> set (dependencies ((shards @ ext) ! i))"
  show "dep < i"
  proof (cases "i < length shards")
    case True
    with assms(1) dep show ?thesis
      by (simp add: topologically_ordered_def nth_append)
  next
    case False
    with i have "i - length shards < length ext" by simp
    moreover from False dep have "dep \<in> set (dependencies (ext ! (i - length shards)))"
      by (simp add: nth_append)
    ultimately have "dep < length shards + (i - length shards)"
      using assms(2) by blast
    with False show ?thesis by simp
  qed
qed

lemma topologically_ordered_alloc:
  assumes "topologically_ordered shards" and "\<forall>dep\<in>set deps. dep < length shards"
  shows "topologically_ordered (snd (alloc_shards t deps n out shards))"
  unfolding alloc_shards_eq snd_conv
  by (rule topologically_ordered_append [OF assms(1)]) (use assms(2) in auto)

lemma build_invariant:
  "topologically_ordered shards \<Longrightarrow>
     topologically_ordered (snd (build t shards)) \<and>
     length shards \<le> length (snd (build t shards)) \<and>
     (\<forall>i\<in>set (fst (build t shards)). i < length (snd (build t shards)))"
  and build_sources_invariant:
  "topologically_ordered shards \<Longrightarrow> \<forall>i\<in>set acc. i < length shards \<Longrightarrow>
     topologically_ordered (snd (build_sources srcs acc shards)) \<and>
     length shards \<le> length (snd (build_sources srcs acc shards)) \<and>
     (\<forall>i\<in>set (fst (build_sources srcs acc shards)). i < length (snd (build_sources srcs acc shards)))"
proof (induction t shards and srcs acc shards rule: build_build_sources.induct)
  case (1 srcs n shards)
  obtain ins mid where bs: "build_sources srcs [] shards = (ins, mid)"
    by (cases "build_sources srcs [] shards")
  from "1.IH" [OF "1.prems"] bs
  have mid: "topologically_ordered mid" "length shards \<le> length mid" "\<forall>i\<in>set ins. i < length mid"
    by simp_all
  have "topologically_ordered (snd (alloc_shards (ReduceTask srcs n) ins n [] mid))"
    by (rule topologically_ordered_alloc [OF mid(1) mid(3)])
  with mid(2) show ?case
    by (auto simp: bs alloc_shards_eq)
next
  case (2 n shards)
  have "topologically_ordered (snd (alloc_shards (SourceTask n) [] n [] shards))"
    by (rule topologically_ordered_alloc [OF "2.prems"]) simp
  then show ?case
    by (auto simp: build_source_def alloc_shards_eq)
next
  case (3 in_indexes shards)
  then show ?case by simp
next
  case (4 src srcs in_indexes shards)
  obtain src_indexes shards1 where b: "build src shards = (src_indexes, shards1)"
    by (cases "build src shards")
  from "4.IH"(1) [OF "4.prems"(1)] b
  have s1: "topologically_ordered shards1" "length shards \<le> length shards1"
    "\<forall>i\<in>set src_indexes. i < length shards1"
    by simp_all
  have acc: "\<forall>i\<in>set (in_indexes @ src_indexes). i < length shards1"
    using "4.prems"(2) s1(2,3) by auto
  from "4.IH"(2) [OF b [symmetric] s1(1) acc] s1(2) show ?case
    by (auto simp: b)
qed

lemma build_reduce_eq:
  "build (ReduceTask srcs n) shards =
     (let in_indexes = concat (build_in_order srcs shards);
          built = shards_after srcs shards
      in ([length built ..< length built + n],
          built @ replicate n \<lparr>task = ReduceTask srcs n, dependencies = in_indexes\<rparr>))"
  by (simp add: build_sources_eq alloc_shards_eq Let_def)

lemma shards_after_topologically_ordered:
  "topologically_ordered shards \<Longrightarrow> topologically_ordered (shards_after ts shards)"
  by (induction ts arbitrary: shards) (simp_all add: build_invariant)

text \<open>
  C5. A call of \<open>build\<close> on a shard list in which every dependency index is strictly
  less than the index of its shard yields a list with the same property; so the list
  that one call builds from the empty list has the property, and so has the list that
  any number of calls, one task after the other, build from the empty list.
\<close>

theorem build_topologically_ordered:
  "(topologically_ordered shards \<longrightarrow> topologically_ordered (snd (build t shards)))
   \<and> topologically_ordered (snd (build t []))
   \<and> topologically_ordered (shards_after ts [])"
proof -
  have "topologically_ordered []"
    by (simp add: topologically_ordered_def)
  then show ?thesis
    using build_invariant [of shards t] build_invariant [of "[]" t]
      shards_after_topologically_ordered [of "[]" ts]
    by blast
qed

theorem build_topologically_ordered_witness:
  "topologically_ordered [] \<and>
   topologically_ordered (snd (build (ReduceTask [SourceTask 2, SourceTask 2] 3) []))"
  using build_topologically_ordered [of "[]" "ReduceTask [SourceTask 2, SourceTask 2] 3" "[]"]
  by (simp add: topologically_ordered_def)

text \<open>
  C6. \<open>build\<close> of a reduce task with \<open>n\<close> shards builds the sources one after the
  other, collects the indices they return into one flat list, and then appends exactly
  \<open>n\<close> shards, each with this flat list as its dependencies; it returns their indices.
  With three shards over two sources of two shards each, the source shards are at the
  indices 0 to 3 and the reduce shards at 4 to 6, each with the dependencies 0, 1, 2, 3.
\<close>

theorem build_reduce_fan_in:
  "build (ReduceTask srcs n) shards =
     (let in_indexes = concat (build_in_order srcs shards);
          built = shards_after srcs shards
      in ([length built ..< length built + n],
          built @ replicate n \<lparr>task = ReduceTask srcs n, dependencies = in_indexes\<rparr>))
   \<and> build (ReduceTask [SourceTask 2, SourceTask 2] 3) [] =
       ([4, 5, 6],
        [\<lparr>task = SourceTask 2, dependencies = []\<rparr>, \<lparr>task = SourceTask 2, dependencies = []\<rparr>,
         \<lparr>task = SourceTask 2, dependencies = []\<rparr>, \<lparr>task = SourceTask 2, dependencies = []\<rparr>,
         \<lparr>task = ReduceTask [SourceTask 2, SourceTask 2] 3, dependencies = [0, 1, 2, 3]\<rparr>,
         \<lparr>task = ReduceTask [SourceTask 2, SourceTask 2] 3, dependencies = [0, 1, 2, 3]\<rparr>,
         \<lparr>task = ReduceTask [SourceTask 2, SourceTask 2] 3, dependencies = [0, 1, 2, 3]\<rparr>])"
proof (intro conjI)
  show "build (ReduceTask srcs n) shards =
     (let in_indexes = concat (build_in_order srcs shards);
          built = shards_after srcs shards
      in ([length built ..< length built + n],
          built @ replicate n \<lparr>task = ReduceTask srcs n, dependencies = in_indexes\<rparr>))"
    by (rule build_reduce_eq)
  show "build (ReduceTask [SourceTask 2, SourceTask 2] 3) [] =
       ([4, 5, 6],
        [\<lparr>task = SourceTask 2, dependencies = []\<rparr>, \<lparr>task = SourceTask 2, dependencies = []\<rparr>,
         \<lparr>task = SourceTask 2, dependencies = []\<rparr>, \<lparr>task = SourceTask 2, dependencies = []\<rparr>,
         \<lparr>task = ReduceTask [SourceTask 2, SourceTask 2] 3, dependencies = [0, 1, 2, 3]\<rparr>,
         \<lparr>task = ReduceTask [SourceTask 2, SourceTask 2] 3, dependencies = [0, 1, 2, 3]\<rparr>,
         \<lparr>task = ReduceTask [SourceTask 2, SourceTask 2] 3, dependencies = [0, 1, 2, 3]\<rparr>])"
    by code_simp
qed

section \<open>Properties of execute and executeRemote\<close>

lemma snd_executeRemote:
  "snd (executeRemote env input_tables h) = [Sent (mkRequest env input_tables h)]"
  by (simp add: executeRemote_def Let_def split: sum.splits)

lemma try_hosts_Cons_raises:
  assumes "isl (fst (executeRemote env input_tables h))"
  shows "try_hosts env input_tables (h # hosts) errors =
           (fst (try_hosts env input_tables hosts (errors @ [attempt_message env input_tables h])),
            attempt_events env input_tables h @
              snd (try_hosts env input_tables hosts (errors @ [attempt_message env input_tables h])))"
proof -
  obtain e evs where ex: "executeRemote env input_tables h = (Inl e, evs)"
    using assms by (cases "executeRemote env input_tables h") (auto simp: isl_def)
  then have evs: "evs = [Sent (mkRequest env input_tables h)]"
    using snd_executeRemote [of env input_tables h] by simp
  show ?thesis
    by (simp add: ex evs attempt_events_def attempt_message_def case_prod_unfold)
qed

lemma try_hosts_Cons_returns:
  assumes "fst (executeRemote env input_tables h) = Inr v"
  shows "try_hosts env input_tables (h # hosts) errors =
           (Inr v, [Sent (mkRequest env input_tables h)])"
proof -
  obtain evs where ex: "executeRemote env input_tables h = (Inr v, evs)"
    using assms by (cases "executeRemote env input_tables h") auto
  then have evs: "evs = [Sent (mkRequest env input_tables h)]"
    using snd_executeRemote [of env input_tables h] by simp
  show ?thesis
    by (simp add: ex evs)
qed

lemma try_hosts_failover:
  assumes "\<forall>a\<in>set failed. isl (fst (executeRemote env input_tables a))"
    and "fst (executeRemote env input_tables h) = Inr v"
  shows "try_hosts env input_tables (failed @ h # rest) errors =
           (Inr v, concat (map (attempt_events env input_tables) failed) @
                   [Sent (mkRequest env input_tables h)])"
  using assms(1)
proof (induction failed arbitrary: errors)
  case Nil
  show ?case
    using try_hosts_Cons_returns [OF assms(2)] by simp
next
  case (Cons a failed)
  then have a: "isl (fst (executeRemote env input_tables a))" by simp
  from Cons show ?case
    by (simp add: try_hosts_Cons_raises [OF a] del: try_hosts.simps)
qed

lemma try_hosts_all_raise:
  assumes "\<forall>a\<in>set hosts. isl (fst (executeRemote env input_tables a))"
  shows "try_hosts env input_tables hosts errors =
           (Inl (Exception kRuntimeError
                   (''MapTableTask::execute failed: '' @
                    join (errors @ map (attempt_message env input_tables) hosts) '', '')),
            concat (map (attempt_events env input_tables) hosts))"
  using assms
proof (induction hosts arbitrary: errors)
  case Nil
  then show ?case by simp
next
  case (Cons a hosts)
  then have a: "isl (fst (executeRemote env input_tables a))" by simp
  from Cons show ?case
    by (simp add: try_hosts_Cons_raises [OF a] del: try_hosts.simps)
qed

lemma example_input_tables:
  "List.map_filter example_job (dependencies example_shard) = [''t0'']"
  by (simp add: example_shard_def example_job_def)

lemma example_requests:
  "executeRequest example_env (mkRequest example_env ts \<lparr>addr = ''a''\<rparr>) =
     Inl (Exception kIOError ''connection refused'')"
  "executeRequest example_env (mkRequest example_env ts \<lparr>addr = ''b''\<rparr>) =
     Inr \<lparr>statusCode = 201, body = ''aabb''\<rparr>"
  "executeRequest example_env (mkRequest example_env ts \<lparr>addr = ''c''\<rparr>) =
     Inr \<lparr>statusCode = 204, body = []\<rparr>"
  "executeRequest example_env (mkRequest example_env ts \<lparr>addr = ''d''\<rparr>) =
     Inr \<lparr>statusCode = 500, body = ''boom''\<rparr>"
proof -
  have "url (mkRequest example_env ts \<lparr>addr = x # xs\<rparr>) ! 7 = x" for x xs
  proof -
    have "fold (\<lambda>t u. u @ f t) ts u ! 7 = u ! 7" if "7 < length u" for u :: string and f
      using that by (induction ts arbitrary: u) (simp_all add: nth_append)
    then show ?thesis
      by (simp add: mkRequest_def Let_def)
  qed
  then show
    "executeRequest example_env (mkRequest example_env ts \<lparr>addr = ''a''\<rparr>) =
       Inl (Exception kIOError ''connection refused'')"
    "executeRequest example_env (mkRequest example_env ts \<lparr>addr = ''b''\<rparr>) =
       Inr \<lparr>statusCode = 201, body = ''aabb''\<rparr>"
    "executeRequest example_env (mkRequest example_env ts \<lparr>addr = ''c''\<rparr>) =
       Inr \<lparr>statusCode = 204, body = []\<rparr>"
    "executeRequest example_env (mkRequest example_env ts \<lparr>addr = ''d''\<rparr>) =
       Inr \<lparr>statusCode = 500, body = ''boom''\<rparr>"
    by (simp_all add: example_env_def)
qed

lemma hex_decode_aabb: "hex_decode ''aabb'' = 0xaabb"
  by (simp add: hex_decode_def hex_digit_def)

text \<open>
  C7. \<open>execute\<close> tries the hosts in the order of the replication policy. When the hosts
  \<open>failed\<close> in front all raise and the next host \<open>h\<close> returns a value (a result or
  none), that value is returned, and the trace holds, in order, one request and one logged
  error for each host of \<open>failed\<close>, then the request to \<open>h\<close>, and nothing for the hosts
  after \<open>h\<close>. When every host raises, \<open>execute\<close> raises a runtime error whose message
  joins the messages of the hosts. With the hosts A, B, C, where the request to A raises
  and B answers 201, the result is the one of B and C receives no request.
\<close>

theorem execute_failover:
  assumes "input_tables = List.map_filter job (dependencies shard)"
  shows
    "(replicasFor env output_id = failed @ h # rest \<and>
      (\<forall>a\<in>set failed. isl (fst (executeRemote env input_tables a))) \<and>
      fst (executeRemote env input_tables h) = Inr v
        \<longrightarrow> execute env shard job output_id =
              (Inr v, concat (map (attempt_events env input_tables) failed) @
                      [Sent (mkRequest env input_tables h)]))
     \<and> ((\<forall>a\<in>set (replicasFor env output_id). isl (fst (executeRemote env input_tables a)))
        \<longrightarrow> execute env shard job output_id =
              (Inl (Exception kRuntimeError
                      (''MapTableTask::execute failed: '' @
                       join (map (attempt_message env input_tables) (replicasFor env output_id))
                         '', '')),
               concat (map (attempt_events env input_tables) (replicasFor env output_id))))
     \<and> (replicasFor env output_id = [A, B, C] \<and>
        executeRequest env (mkRequest env input_tables A) = Inl e \<and>
        executeRequest env (mkRequest env input_tables B) = Inr \<lparr>statusCode = 201, body = b\<rparr>
        \<longrightarrow> execute env shard job output_id =
              (Inr (Some \<lparr>host = B, result_id = fromHexString env b\<rparr>),
               [Sent (mkRequest env input_tables A), Logged e,
                Sent (mkRequest env input_tables B)]))"
proof (intro conjI impI)
  assume "replicasFor env output_id = failed @ h # rest \<and>
      (\<forall>a\<in>set failed. isl (fst (executeRemote env input_tables a))) \<and>
      fst (executeRemote env input_tables h) = Inr v"
  then show "execute env shard job output_id =
              (Inr v, concat (map (attempt_events env input_tables) failed) @
                      [Sent (mkRequest env input_tables h)])"
    using try_hosts_failover [of failed env input_tables h v rest "[]"]
    by (simp add: execute_def assms Let_def)
next
  assume "\<forall>a\<in>set (replicasFor env output_id). isl (fst (executeRemote env input_tables a))"
  then show "execute env shard job output_id =
              (Inl (Exception kRuntimeError
                      (''MapTableTask::execute failed: '' @
                       join (map (attempt_message env input_tables) (replicasFor env output_id))
                         '', '')),
               concat (map (attempt_events env input_tables) (replicasFor env output_id)))"
    using try_hosts_all_raise [of "replicasFor env output_id" env input_tables "[]"]
    by (simp add: execute_def assms Let_def)
next
  assume abc: "replicasFor env output_id = [A, B, C] \<and>
        executeRequest env (mkRequest env input_tables A) = Inl e \<and>
        executeRequest env (mkRequest env input_tables B) = Inr \<lparr>statusCode = 201, body = b\<rparr>"
  then have A: "executeRemote env input_tables A = (Inl e, [Sent (mkRequest env input_tables A)])"
    and B: "executeRemote env input_tables B =
              (Inr (Some \<lparr>host = B, result_id = fromHexString env b\<rparr>),
               [Sent (mkRequest env input_tables B)])"
    by (simp_all add: executeRemote_def Let_def)
  from abc show "execute env shard job output_id =
              (Inr (Some \<lparr>host = B, result_id = fromHexString env b\<rparr>),
               [Sent (mkRequest env input_tables A), Logged e,
                Sent (mkRequest env input_tables B)])"
    by (simp add: execute_def assms [symmetric] Let_def A B)
qed

theorem execute_failover_witness:
  "[''t0''] = List.map_filter example_job (dependencies example_shard) \<and>
   replicasFor example_env 0 = [\<lparr>addr = ''a''\<rparr>, \<lparr>addr = ''b''\<rparr>, \<lparr>addr = ''c''\<rparr>] \<and>
   execute example_env example_shard example_job 0 =
     (Inr (Some \<lparr>host = \<lparr>addr = ''b''\<rparr>, result_id = 0xaabb\<rparr>),
      [Sent (mkRequest example_env [''t0''] \<lparr>addr = ''a''\<rparr>),
       Logged (Exception kIOError ''connection refused''),
       Sent (mkRequest example_env [''t0''] \<lparr>addr = ''b''\<rparr>)])"
  using execute_failover [where input_tables = "[''t0'']" and job = example_job
          and shard = example_shard and env = example_env and output_id = 0
          and A = "\<lparr>addr = ''a''\<rparr>" and B = "\<lparr>addr = ''b''\<rparr>" and C = "\<lparr>addr = ''c''\<rparr>"
          and e = "Exception kIOError ''connection refused''" and b = "''aabb''"]
  by (simp add: example_input_tables example_requests) (simp add: example_env_def hex_decode_aabb)

text \<open>
  C8. When the HTTP client returns a response: status 204 gives no result; status 201
  gives the host with the result id decoded from the body; any other status raises a
  runtime error, after which the caller's loop goes on with the next host;
  \<open>executeRemote\<close> raises if and only if the status is neither 201 nor 204.
\<close>

theorem executeRemote_status:
  assumes "executeRequest env (mkRequest env input_tables h) = Inr res"
  shows
    "(statusCode res = 204 \<longrightarrow> fst (executeRemote env input_tables h) = Inr None)
     \<and> (statusCode res = 201 \<longrightarrow>
          fst (executeRemote env input_tables h) =
            Inr (Some \<lparr>host = h, result_id = fromHexString env (body res)\<rparr>))
     \<and> (statusCode res \<noteq> 201 \<and> statusCode res \<noteq> 204 \<longrightarrow>
          fst (executeRemote env input_tables h) =
            Inl (Exception kRuntimeError (''received non-201 response: '' @ body res)) \<and>
          fst (try_hosts env input_tables (h # hosts) errors) =
            fst (try_hosts env input_tables hosts
                   (errors @ [''received non-201 response: '' @ body res])))
     \<and> (isl (fst (executeRemote env input_tables h)) \<longleftrightarrow>
          statusCode res \<noteq> 201 \<and> statusCode res \<noteq> 204)"
  using assms by (auto simp: executeRemote_def Let_def case_prod_unfold)

theorem executeRemote_status_witness:
  "fst (executeRemote example_env [''t0''] \<lparr>addr = ''b''\<rparr>) =
     Inr (Some \<lparr>host = \<lparr>addr = ''b''\<rparr>, result_id = 0xaabb\<rparr>) \<and>
   fst (executeRemote example_env [''t0''] \<lparr>addr = ''c''\<rparr>) = Inr None \<and>
   fst (executeRemote example_env [''t0''] \<lparr>addr = ''d''\<rparr>) =
     Inl (Exception kRuntimeError ''received non-201 response: boom'')"
  using executeRemote_status [OF example_requests(2), of "[''t0'']"]
        executeRemote_status [OF example_requests(3), of "[''t0'']"]
        executeRemote_status [OF example_requests(4), of "[''t0'']"]
  by (simp add: example_env_def hex_decode_aabb)

text \<open>
  C10. When the replication policy returns no host, \<open>execute\<close> raises the aggregate
  runtime error with an empty list of causes and sends no request.
\<close>

theorem execute_no_replicas:
  assumes "replicasFor env output_id = []"
  shows "execute env shard job output_id =
           (Inl (Exception kRuntimeError ''MapTableTask::execute failed: ''), [])"
  using assms by (simp add: execute_def Let_def)

theorem execute_no_replicas_witness:
  "replicasFor (example_env\<lparr>replicasFor := (\<lambda>output_id. [])\<rparr>) 0 = [] \<and>
   execute (example_env\<lparr>replicasFor := (\<lambda>output_id. [])\<rparr>) example_shard example_job 0 =
     (Inl (Exception kRuntimeError ''MapTableTask::execute failed: ''), [])"
  using execute_no_replicas [of "example_env\<lparr>replicasFor := (\<lambda>output_id. [])\<rparr>" 0
          example_shard example_job]
  by simp

end
